theory Spec2Isabelle
  imports Main
begin

section \<open>The Scribe lambda (server/routerlicious/packages/lambdas/src/scribe/lambda.ts)\<close>

text \<open>
  A shallow embedding of class \<open>ScribeLambda\<close>.  The mutable fields of the class are the
  fields of the record \<open>ScribeLambda\<close>; every method takes the lambda and returns the
  updated one.  Sequence numbers, offsets and times are JavaScript numbers holding integers
  and are modelled as \<open>int\<close>.  A \<open>Deque\<close> is a list: \<open>push\<close> appends, \<open>shift\<close> and
  \<open>removeFront\<close> drop the head, \<open>peekBack\<close> reads the last element.

  Several records of the source share field names (\<open>sequenceNumber\<close> and others), so the
  fields of the messages carry a prefix: \<open>op_\<close> for \<open>ISequencedDocumentMessage\<close>,
  \<open>qm_\<close> for \<open>IQueuedMessage\<close>, \<open>cp_\<close> for the checkpoint \<open>IScribe\<close>.  The fields of the
  lambda keep the names of the class.

  What the lambda does to the outside (calls of the producer, of the checkpoint manager, of
  the summary writer, of the pending message reader, of the Kafka context) is appended to
  the field \<open>effects\<close>, in the order of the calls.  The promise \<open>pendingP\<close> is the flag
  \<open>pendingP\<close>; the database operations that were started and have not settled yet are
  the list \<open>inflight\<close>, each with the values its completion callback has captured.
\<close>

subsection \<open>Messages\<close>

datatype MessageType =
  NoOp | ClientJoin | ClientLeave | Propose | Operation
  | Summarize | SummaryAck | SummaryNack | NoClient | Control

text \<open>\<open>ISummaryAck\<close> and \<open>ISummaryNack\<close>: the source casts the writer's \<open>message\<close> to either
  without a check, so one record carries the fields of both.\<close>

record ISummaryContent =
  sc_handle :: "string option"
  sc_message :: "string option"
  sc_summarySequenceNumber :: int

record ISequencedDocumentMessage =
  op_sequenceNumber :: int
  op_minimumSequenceNumber :: int
  op_referenceSequenceNumber :: int
  op_type :: MessageType
  op_deliAcked :: bool
  op_summaryAck :: "ISummaryContent option"

text \<open>\<open>op_deliAcked\<close> is \<open>serverMetadata?.deliAcked\<close> read as a truth value.
  \<open>op_summaryAck\<close> is what \<open>operation.data ? JSON.parse(operation.data) : operation.contents\<close>
  yields on a SummaryAck op (\<open>None\<close>: the content cannot be read and the access throws).\<close>

datatype BaseMessage = SequencedOperation ISequencedDocumentMessage | OtherMessage

record IQueuedMessage =
  qm_offset :: int
  qm_partition :: int
  qm_boxcar :: "BaseMessage list"

text \<open>\<open>qm_boxcar\<close> is \<open>extractBoxcar(message).contents\<close>.\<close>

datatype ControlMessageType = UpdateDSN

record IControlMessage =
  cm_type :: ControlMessageType
  cm_durableSequenceNumber :: int
  cm_isClientSummary :: bool
  cm_clearCache :: bool

datatype SystemData = SummaryData ISummaryContent | ControlData IControlMessage

record IDocumentSystemMessage =
  dsm_clientSequenceNumber :: int
  dsm_referenceSequenceNumber :: int
  dsm_type :: MessageType
  dsm_data :: SystemData

record 'q IScribe =
  cp_lastSummarySequenceNumber :: "int option"
  cp_lastClientSummaryHead :: "string option"
  cp_logOffset :: "int option"
  cp_minimumSequenceNumber :: int
  cp_protocolState :: 'q
  cp_sequenceNumber :: int
  cp_validParentSummaries :: "string list option"
  cp_isCorrupt :: bool
  cp_protocolHead :: int
  cp_checkpointTimestamp :: int

datatype CheckpointReason =
  EveryMessage | IdleTime | MaxTime | MaxMessages | ClearCache | NoClients | MarkAsCorrupt

datatype Error =
  InvalidSequenceNumber int int
  | ProtocolError
  | AssertionError
  | SummaryWriterError
  | PendingMessageReaderError
  | ContentError
  | ProducerError

datatype Outcome = Returned | Threw Error

subsection \<open>Effects and collaborators\<close>

datatype PendingWrite = DeleteWrite | CheckpointWrite "ISequencedDocumentMessage list"

record InFlight =
  w_kind :: PendingWrite
  w_queuedMessage :: IQueuedMessage
  w_clearCache :: bool
  w_skipKafkaCheckpoint :: bool

datatype 'q Effect =
  KafkaCheckpoint IQueuedMessage bool
  | ManagerWrite "'q IScribe" int "ISequencedDocumentMessage list" bool bool bool
  | ManagerDelete int bool
  | Settled PendingWrite bool
  | SendToDeli IDocumentSystemMessage
  | ClientSummaryCall ISequencedDocumentMessage "string option" "'q IScribe"
      "ISequencedDocumentMessage list" bool
  | ServiceSummaryCall ISequencedDocumentMessage int "'q IScribe"
      "ISequencedDocumentMessage list"
  | ReadMessages int int
  | IdleTimerArmed int bool
  | CheckpointLog CheckpointReason

text \<open>
  \<open>KafkaCheckpoint m r\<close> is \<open>context.checkpoint(m, r)\<close>; \<open>ManagerWrite\<close> and \<open>ManagerDelete\<close>
  are the calls of \<open>checkpointManager.write\<close> and \<open>checkpointManager.delete\<close>;
  \<open>Settled w ok\<close> records that the promise of the database operation \<open>w\<close> resolved
  (\<open>ok\<close>) or rejected; \<open>SendToDeli\<close> is \<open>sendToDeli\<close>; \<open>CheckpointLog r\<close> is the line
  \<open>Writing checkpoint. Reason: r\<close>.
\<close>

record ISummaryWriteResponse =
  status :: bool
  message :: ISummaryContent

text \<open>
  The collaborators of the lambda are not part of the file; they are parameters.  The
  protocol handler is a value of type \<open>'p\<close>, its serialised state one of type \<open>'q\<close>.
  \<open>processMessage\<close> stands for the body of the \<open>try\<close> in \<open>processFromPending\<close>
  (\<open>JSON.parse\<close> of the contents and \<open>protocolHandler.processMessage\<close>): it returns
  whether it completed without throwing, and the handler afterwards.  A writer or reader
  that returns \<open>None\<close> has thrown (its promise rejected).  \<open>writeServiceSummary\<close> returns
  \<open>Some None\<close> for \<open>false\<close> and \<open>Some (Some h)\<close> for the handle \<open>h\<close>.
  \<open>producer\<close> is the constructor's \<open>producer: IProducer | undefined\<close>: \<open>None\<close> when
  there is none, else the function that tells for an op whether the promise of sending it
  resolves.
\<close>

record ('p, 'q) Env =
  processMessage :: "'p \<Rightarrow> ISequencedDocumentMessage \<Rightarrow> bool \<times> 'p"
  handlerSequenceNumber :: "'p \<Rightarrow> int"
  getProtocolState :: "'p \<Rightarrow> bool \<Rightarrow> 'q"
  initializeProtocol :: "'q \<Rightarrow> 'p"
  isExternal :: bool
  writeClientSummary :: "ISequencedDocumentMessage \<Rightarrow> string option \<Rightarrow> 'q IScribe
     \<Rightarrow> ISequencedDocumentMessage list \<Rightarrow> bool \<Rightarrow> ISummaryWriteResponse option"
  writeServiceSummary :: "ISequencedDocumentMessage \<Rightarrow> int \<Rightarrow> 'q IScribe
     \<Rightarrow> ISequencedDocumentMessage list \<Rightarrow> string option option"
  pendingMessageReader :: "(int \<Rightarrow> int \<Rightarrow> ISequencedDocumentMessage list option) option"
  producer :: "(IDocumentSystemMessage \<Rightarrow> bool) option"
  now :: int

record CheckpointHeuristics =
  enable :: bool
  maxMessages :: int
  maxTime :: int
  idleTime :: int

text \<open>The constructor's read-only parameters and the fields of
  \<open>serviceConfiguration.scribe\<close> that the lambda reads.  \<open>tenantIsTransient\<close> is
  \<open>transientTenants.has(tenantId)\<close>.\<close>

record Config =
  enablePendingCheckpointMessages :: bool
  generateServiceSummary :: bool
  scrubUserDataInSummaries :: bool
  scrubUserDataInGlobalCheckpoints :: bool
  scrubUserDataInLocalCheckpoints :: bool
  clearCacheAfterServiceSummary :: bool
  ignoreStorageException :: bool
  maxTrackedServiceSummaryVersionsSinceLastClientSummary :: int
  checkpointHeuristics :: CheckpointHeuristics
  tenantIsTransient :: bool
  disableTransientTenantFiltering :: bool
  restartOnCheckpointFailure :: bool
  kafkaCheckpointOnReprocessingOp :: bool
  isEphemeralContainer :: bool
  localCheckpointEnabled :: bool
  maxPendingCheckpointMessagesLength :: int

subsection \<open>The document checkpoint manager\<close>

text \<open>
  Modelled from the spec: class \<open>DocumentCheckpointManager\<close> (\<open>../utils\<close>) is not among
  the sources.  The spec names what it keeps: whether a NoClient op was seen
  (\<open>noActiveClients\<close>), the raw messages since the last checkpoint, the time of the last
  checkpoint, the most recent message as the acknowledgement point, and an idle timer that
  a checkpoint or a newer timer replaces.
\<close>

record DocumentCheckpointManager =
  noActiveClients :: bool
  rawMessagesSinceCheckpoint :: int
  lastCheckpointTime :: int
  currentCheckpointMessage :: "IQueuedMessage option"
  idleTimer :: "IQueuedMessage option"

definition updateCheckpointMessages ::
  "IQueuedMessage \<Rightarrow> DocumentCheckpointManager \<Rightarrow> DocumentCheckpointManager" where
  "updateCheckpointMessages m d = d\<lparr>currentCheckpointMessage := Some m\<rparr>"

definition incrementRawMessageCounter ::
  "DocumentCheckpointManager \<Rightarrow> DocumentCheckpointManager" where
  "incrementRawMessageCounter d =
     d\<lparr>rawMessagesSinceCheckpoint := rawMessagesSinceCheckpoint d + 1\<rparr>"

definition resetCheckpointTimer ::
  "int \<Rightarrow> DocumentCheckpointManager \<Rightarrow> DocumentCheckpointManager" where
  "resetCheckpointTimer t d =
     d\<lparr>idleTimer := None, lastCheckpointTime := t, rawMessagesSinceCheckpoint := 0\<rparr>"

definition setNoActiveClients ::
  "bool \<Rightarrow> DocumentCheckpointManager \<Rightarrow> DocumentCheckpointManager" where
  "setNoActiveClients b d = d\<lparr>noActiveClients := b\<rparr>"

definition updateCheckpointIdleTimer ::
  "DocumentCheckpointManager \<Rightarrow> DocumentCheckpointManager" where
  "updateCheckpointIdleTimer d = d\<lparr>idleTimer := currentCheckpointMessage d\<rparr>"

text \<open>Modelled from the spec: \<open>isGlobalCheckpoint\<close> (\<open>./utils\<close>) is not among the sources;
  a checkpoint is global iff \<open>noActiveClients \<or> globalOnly\<close>.\<close>

definition isGlobalCheckpoint :: "bool \<Rightarrow> bool \<Rightarrow> bool" where
  "isGlobalCheckpoint noClients globalOnly = (noClients \<or> globalOnly)"

subsection \<open>The state of the lambda\<close>

record ('p, 'q) ScribeLambda =
  lastOffset :: "int option"
  pendingCheckpointScribe :: "'q IScribe option"
  pendingCheckpointOffset :: "IQueuedMessage option"
  pendingP :: bool
  pendingCheckpointMessages :: "ISequencedDocumentMessage list"
  pendingMessages :: "ISequencedDocumentMessage list"
  sequenceNumber :: int
  minSequenceNumber :: int
  lastClientSummaryHead :: "string option"
  lastSummarySequenceNumber :: "int option"
  validParentSummaries :: "string list option"
  isDocumentCorrupt :: bool
  clearCache :: bool
  closed :: bool
  documentCheckpointManager :: DocumentCheckpointManager
  globalCheckpointOnly :: bool
  lastCheckpointInsertedNumber :: int
  protocolHandler :: 'p
  protocolHead :: int
  inflight :: "InFlight list"
  effects :: "'q Effect list"

definition emit :: "'q Effect \<Rightarrow> ('p, 'q) ScribeLambda \<Rightarrow> ('p, 'q) ScribeLambda" where
  "emit e s = s\<lparr>effects := effects s @ [e]\<rparr>"

text \<open>The constructor (lines 108 to 134); \<open>t0\<close> is the time at which the checkpoint
  manager of the instance is created.\<close>

definition setStateFromCheckpoint ::
  "'q IScribe \<Rightarrow> ('p, 'q) ScribeLambda \<Rightarrow> ('p, 'q) ScribeLambda" where
  "setStateFromCheckpoint scribe s =
     s\<lparr>sequenceNumber := cp_sequenceNumber scribe,
       minSequenceNumber := cp_minimumSequenceNumber scribe,
       lastClientSummaryHead := cp_lastClientSummaryHead scribe,
       lastSummarySequenceNumber := cp_lastSummarySequenceNumber scribe,
       validParentSummaries := cp_validParentSummaries scribe,
       isDocumentCorrupt := cp_isCorrupt scribe\<rparr>"

definition newScribeLambda ::
  "Config \<Rightarrow> 'q IScribe \<Rightarrow> 'p \<Rightarrow> int \<Rightarrow> ISequencedDocumentMessage list \<Rightarrow> int
     \<Rightarrow> ('p, 'q) ScribeLambda" where
  "newScribeLambda cfg scribe handler0 head0 messages t0 =
     (setStateFromCheckpoint scribe
        \<lparr>lastOffset = cp_logOffset scribe,
         pendingCheckpointScribe = None,
         pendingCheckpointOffset = None,
         pendingP = False,
         pendingCheckpointMessages = [],
         pendingMessages = [],
         sequenceNumber = 0,
         minSequenceNumber = 0,
         lastClientSummaryHead = None,
         lastSummarySequenceNumber = None,
         validParentSummaries = None,
         isDocumentCorrupt = False,
         clearCache = False,
         closed = False,
         documentCheckpointManager =
           \<lparr>noActiveClients = False, rawMessagesSinceCheckpoint = 0,
            lastCheckpointTime = t0, currentCheckpointMessage = None, idleTimer = None\<rparr>,
         globalCheckpointOnly = False,
         lastCheckpointInsertedNumber = 0,
         protocolHandler = handler0,
         protocolHead = head0,
         inflight = [],
         effects = []\<rparr>)
       \<lparr>pendingMessages := messages,
        globalCheckpointOnly := (if localCheckpointEnabled cfg then False else True)\<rparr>"

subsection \<open>Checkpoints\<close>

definition generateScribeCheckpoint ::
  "('p, 'q) Env \<Rightarrow> ('p, 'q) ScribeLambda \<Rightarrow> int option \<Rightarrow> bool \<Rightarrow> 'q IScribe" where
  "generateScribeCheckpoint env s logOffset scrubUserData =
     \<lparr>cp_lastSummarySequenceNumber = lastSummarySequenceNumber s,
      cp_lastClientSummaryHead = lastClientSummaryHead s,
      cp_logOffset = logOffset,
      cp_minimumSequenceNumber = minSequenceNumber s,
      cp_protocolState = getProtocolState env (protocolHandler s) scrubUserData,
      cp_sequenceNumber = sequenceNumber s,
      cp_validParentSummaries = validParentSummaries s,
      cp_isCorrupt = isDocumentCorrupt s,
      cp_protocolHead = protocolHead s,
      cp_checkpointTimestamp = now env\<rparr>"

text \<open>\<open>checkpointCore\<close> (lines 651 to 707) up to the point where the promise chain is
  built, with the synchronous part of \<open>writeCheckpoint\<close> (lines 710 to 720): the filter of
  the inserts and the call of \<open>checkpointManager.write\<close>.\<close>

definition checkpointCore ::
  "Config \<Rightarrow> 'q IScribe \<Rightarrow> IQueuedMessage \<Rightarrow> bool \<Rightarrow> bool
     \<Rightarrow> ('p, 'q) ScribeLambda \<Rightarrow> ('p, 'q) ScribeLambda" where
  "checkpointCore cfg checkpoint queuedMessage clearCacheArg skipKafkaCheckpoint s =
     (if closed s then s
      else if pendingP s then
        s\<lparr>pendingCheckpointScribe := Some checkpoint,
          pendingCheckpointOffset := Some queuedMessage\<rparr>
      else if clearCacheArg then
        (emit (ManagerDelete (protocolHead s) True) s)
          \<lparr>pendingP := True,
           inflight := inflight s @
             [\<lparr>w_kind = DeleteWrite, w_queuedMessage = queuedMessage,
               w_clearCache = clearCacheArg, w_skipKafkaCheckpoint = skipKafkaCheckpoint\<rparr>]\<rparr>
      else
        (let inserts = filter (\<lambda>pcm. op_sequenceNumber pcm > lastCheckpointInsertedNumber s)
                         (pendingCheckpointMessages s)
         in (emit (ManagerWrite checkpoint (protocolHead s) inserts
                     (noActiveClients (documentCheckpointManager s))
                     (globalCheckpointOnly s) (isDocumentCorrupt s)) s)
              \<lparr>pendingP := True,
               inflight := inflight s @
                 [\<lparr>w_kind = CheckpointWrite inserts, w_queuedMessage = queuedMessage,
                   w_clearCache = clearCacheArg,
                   w_skipKafkaCheckpoint = skipKafkaCheckpoint\<rparr>]\<rparr>))"

text \<open>The rest of \<open>writeCheckpoint\<close> (lines 721 to 739), run when the write resolved.\<close>

definition writeCheckpointDone ::
  "Config \<Rightarrow> ISequencedDocumentMessage list \<Rightarrow> ('p, 'q) ScribeLambda
     \<Rightarrow> ('p, 'q) ScribeLambda" where
  "writeCheckpointDone cfg inserts s =
     (if length inserts > 0 then
        (let lastInserted = op_sequenceNumber (last inserts);
             cappedNumber = max (protocolHead s)
                              (lastInserted - maxPendingCheckpointMessagesLength cfg)
         in s\<lparr>lastCheckpointInsertedNumber := lastInserted,
              pendingCheckpointMessages :=
                dropWhile (\<lambda>m. op_sequenceNumber m \<le> cappedNumber)
                  (pendingCheckpointMessages s)\<rparr>)
      else s)"

text \<open>The \<open>then\<close> callback of the chain (lines 680 to 698).\<close>

definition checkpointThen ::
  "Config \<Rightarrow> InFlight \<Rightarrow> bool \<Rightarrow> ('p, 'q) ScribeLambda \<Rightarrow> ('p, 'q) ScribeLambda" where
  "checkpointThen cfg w databaseCheckpointFailed s =
     (let s1 = s\<lparr>pendingP := False\<rparr>;
          s2 = (if \<not> w_skipKafkaCheckpoint w \<and> \<not> databaseCheckpointFailed
                then emit (KafkaCheckpoint (w_queuedMessage w) (restartOnCheckpointFailure cfg)) s1
                else s1)
      in case (pendingCheckpointScribe s2, pendingCheckpointOffset s2) of
           (Some pendingScribe, Some pendingOffset) \<Rightarrow>
             checkpointCore cfg pendingScribe pendingOffset (w_clearCache w) False
               (s2\<lparr>pendingCheckpointScribe := None, pendingCheckpointOffset := None\<rparr>)
         | _ \<Rightarrow> s2)"

text \<open>The oldest database operation in flight settles: \<open>ok\<close> tells whether its promise
  resolved.  A rejected write is caught (line 671) and the \<open>then\<close> callback runs with
  \<open>databaseCheckpointFailed\<close>; a rejected delete skips the \<open>then\<close> callback and reaches
  the final \<open>catch\<close> (line 699), which only logs.\<close>

definition settle :: "Config \<Rightarrow> bool \<Rightarrow> ('p, 'q) ScribeLambda \<Rightarrow> ('p, 'q) ScribeLambda" where
  "settle cfg ok s =
     (case inflight s of
        [] \<Rightarrow> s
      | w # ws \<Rightarrow>
          (let s1 = emit (Settled (w_kind w) ok) (s\<lparr>inflight := ws\<rparr>)
           in case w_kind w of
                DeleteWrite \<Rightarrow> (if ok then checkpointThen cfg w False s1 else s1)
              | CheckpointWrite inserts \<Rightarrow>
                  (if ok then checkpointThen cfg w False (writeCheckpointDone cfg inserts s1)
                   else checkpointThen cfg w True s1)))"

text \<open>\<open>prepareCheckpoint\<close> (lines 491 to 533); an absent \<open>skipKafkaCheckpoint\<close> is
  \<open>False\<close>, the default of \<open>checkpointCore\<close>.\<close>

definition prepareCheckpoint ::
  "Config \<Rightarrow> ('p, 'q) Env \<Rightarrow> IQueuedMessage \<Rightarrow> CheckpointReason \<Rightarrow> bool
     \<Rightarrow> ('p, 'q) ScribeLambda \<Rightarrow> ('p, 'q) ScribeLambda" where
  "prepareCheckpoint cfg env msg checkpointReason skipKafkaCheckpoint s =
     (let isGlobal = isGlobalCheckpoint (noActiveClients (documentCheckpointManager s))
                       (globalCheckpointOnly s);
          checkpoint = generateScribeCheckpoint env s (Some (qm_offset msg))
                         (if isGlobal then scrubUserDataInGlobalCheckpoints cfg
                          else scrubUserDataInLocalCheckpoints cfg);
          s1 = s\<lparr>documentCheckpointManager :=
                   resetCheckpointTimer (now env)
                     (updateCheckpointMessages msg (documentCheckpointManager s))\<rparr>;
          s2 = checkpointCore cfg checkpoint msg (clearCache s1) skipKafkaCheckpoint s1
      in emit (CheckpointLog checkpointReason) (s2\<lparr>lastOffset := Some (qm_offset msg)\<rparr>))"

definition markDocumentAsCorrupt ::
  "Config \<Rightarrow> ('p, 'q) Env \<Rightarrow> IQueuedMessage \<Rightarrow> ('p, 'q) ScribeLambda
     \<Rightarrow> ('p, 'q) ScribeLambda" where
  "markDocumentAsCorrupt cfg env msg s =
     (let s1 = s\<lparr>isDocumentCorrupt := True\<rparr>
      in prepareCheckpoint cfg env msg MarkAsCorrupt (isDocumentCorrupt s1) s1)"

text \<open>\<open>idleTimeCheckpoint\<close> (lines 875 to 910).\<close>

definition idleTimeCheckpoint ::
  "Config \<Rightarrow> ('p, 'q) Env \<Rightarrow> IQueuedMessage option \<Rightarrow> ('p, 'q) ScribeLambda
     \<Rightarrow> ('p, 'q) ScribeLambda" where
  "idleTimeCheckpoint cfg env initialScribeCheckpointMessage s =
     (case initialScribeCheckpointMessage of
        None \<Rightarrow> s
      | Some m \<Rightarrow>
          (let isGlobal = isGlobalCheckpoint (noActiveClients (documentCheckpointManager s))
                            (globalCheckpointOnly s);
               checkpoint = generateScribeCheckpoint env s (Some (qm_offset m))
                              (if isGlobal then scrubUserDataInGlobalCheckpoints cfg
                               else scrubUserDataInLocalCheckpoints cfg)
           in emit (CheckpointLog IdleTime)
                (checkpointCore cfg checkpoint m (clearCache s) False s)))"

text \<open>\<open>close\<close> (lines 535 to 540); closing the protocol handler changes nothing the
  lambda reads afterwards.\<close>

definition close :: "('p, 'q) ScribeLambda \<Rightarrow> ('p, 'q) ScribeLambda" where
  "close s = s\<lparr>closed := True\<rparr>"

subsection \<open>Advancing the protocol handler\<close>

text \<open>The loop of \<open>processFromPending\<close> (lines 574 to 618) over the pending buffer: it
  returns whether every processed message went through, the buffer that is left (the
  message that threw has been shifted out) and the protocol handler.\<close>

fun drainPending ::
  "('p \<Rightarrow> ISequencedDocumentMessage \<Rightarrow> bool \<times> 'p) \<Rightarrow> int
     \<Rightarrow> ISequencedDocumentMessage list \<Rightarrow> 'p
     \<Rightarrow> bool \<times> ISequencedDocumentMessage list \<times> 'p" where
  "drainPending pm target [] h = (True, [], h)"
| "drainPending pm target (m # ms) h =
     (if op_sequenceNumber m \<le> target then
        (let (ok, h') = pm h m
         in if ok then drainPending pm target ms h' else (False, ms, h'))
      else (True, m # ms, h))"

definition processFromPending ::
  "Config \<Rightarrow> ('p, 'q) Env \<Rightarrow> int \<Rightarrow> IQueuedMessage \<Rightarrow> ('p, 'q) ScribeLambda
     \<Rightarrow> Outcome \<times> ('p, 'q) ScribeLambda" where
  "processFromPending cfg env target queuedMessage s =
     (let (ok, rest, h) = drainPending (processMessage env) target (pendingMessages s)
                            (protocolHandler s);
          s1 = s\<lparr>pendingMessages := rest, protocolHandler := h\<rparr>
      in if ok then (Returned, s1)
         else (Threw ProtocolError, markDocumentAsCorrupt cfg env queuedMessage s1))"

definition revertProtocolState ::
  "('p, 'q) Env \<Rightarrow> 'q \<Rightarrow> ISequencedDocumentMessage list \<Rightarrow> ('p, 'q) ScribeLambda
     \<Rightarrow> ('p, 'q) ScribeLambda" where
  "revertProtocolState env protocolState pendingOps s =
     s\<lparr>protocolHandler := initializeProtocol env protocolState,
       pendingMessages := pendingOps\<rparr>"

definition updateProtocolHead :: "int \<Rightarrow> ('p, 'q) ScribeLambda \<Rightarrow> ('p, 'q) ScribeLambda" where
  "updateProtocolHead n s = s\<lparr>protocolHead := n\<rparr>"

definition updateLastSummarySequenceNumber ::
  "int \<Rightarrow> ('p, 'q) ScribeLambda \<Rightarrow> ('p, 'q) ScribeLambda" where
  "updateLastSummarySequenceNumber n s = s\<lparr>lastSummarySequenceNumber := Some n\<rparr>"

text \<open>\<open>updateValidParentSummaries\<close> (lines 764 to 783): \<open>shift\<close> drops the first handle,
  \<open>splice(0, n)\<close> the first \<open>n\<close> (all of them when there are fewer).\<close>

definition updateValidParentSummaries ::
  "Config \<Rightarrow> string \<Rightarrow> ('p, 'q) ScribeLambda \<Rightarrow> ('p, 'q) ScribeLambda" where
  "updateValidParentSummaries cfg summaryHandle s =
     (let pushed = (case validParentSummaries s of None \<Rightarrow> [] | Some v \<Rightarrow> v) @ [summaryHandle];
          countOverLimit = int (length pushed)
             - maxTrackedServiceSummaryVersionsSinceLastClientSummary cfg
      in s\<lparr>validParentSummaries :=
             Some (if countOverLimit = 1 then tl pushed
                   else if countOverLimit > 1 then drop (nat countOverLimit) pushed
                   else pushed)\<rparr>)"

subsection \<open>Ops sent to the producer\<close>

text \<open>Modelled from the spec: \<open>sendToDeli\<close> (\<open>./utils\<close>) is not among the sources; the spec
  has the producer as the outbound emitter of system ops.  Sending an op that the producer
  delivers is the effect \<open>SendToDeli\<close>; with no producer, or when the promise of the send
  rejects, the call throws and nothing is recorded as sent.\<close>

definition delivers :: "('p, 'q) Env \<Rightarrow> IDocumentSystemMessage \<Rightarrow> bool" where
  "delivers env operation =
     (case producer env of None \<Rightarrow> False | Some send \<Rightarrow> send operation)"

definition sendToDeli ::
  "('p, 'q) Env \<Rightarrow> IDocumentSystemMessage \<Rightarrow> ('p, 'q) ScribeLambda
     \<Rightarrow> Outcome \<times> ('p, 'q) ScribeLambda" where
  "sendToDeli env operation s =
     (if delivers env operation then (Returned, emit (SendToDeli operation) s)
      else (Threw ProducerError, s))"

text \<open>The op that \<open>sendSummaryAck\<close> builds (lines 786 to 793), the one of
  \<open>sendSummaryNack\<close> (lines 799 to 806) and the one of
  \<open>sendSummaryConfirmationMessage\<close> (lines 820 to 836).\<close>

definition summaryAckOperation :: "ISummaryContent \<Rightarrow> IDocumentSystemMessage" where
  "summaryAckOperation contents =
     \<lparr>dsm_clientSequenceNumber = - 1, dsm_referenceSequenceNumber = - 1,
      dsm_type = SummaryAck, dsm_data = SummaryData contents\<rparr>"

definition summaryNackOperation :: "ISummaryContent \<Rightarrow> IDocumentSystemMessage" where
  "summaryNackOperation contents =
     \<lparr>dsm_clientSequenceNumber = - 1, dsm_referenceSequenceNumber = - 1,
      dsm_type = SummaryNack, dsm_data = SummaryData contents\<rparr>"

definition confirmationOperation :: "int \<Rightarrow> bool \<Rightarrow> bool \<Rightarrow> IDocumentSystemMessage" where
  "confirmationOperation durableSequenceNumber isClientSummary clearCacheArg =
     \<lparr>dsm_clientSequenceNumber = - 1, dsm_referenceSequenceNumber = - 1,
      dsm_type = Control,
      dsm_data = ControlData
        \<lparr>cm_type = UpdateDSN, cm_durableSequenceNumber = durableSequenceNumber,
         cm_isClientSummary = isClientSummary, cm_clearCache = clearCacheArg\<rparr>\<rparr>"

definition sendSummaryAck ::
  "('p, 'q) Env \<Rightarrow> ISummaryContent \<Rightarrow> ('p, 'q) ScribeLambda
     \<Rightarrow> Outcome \<times> ('p, 'q) ScribeLambda" where
  "sendSummaryAck env contents = sendToDeli env (summaryAckOperation contents)"

definition sendSummaryNack ::
  "('p, 'q) Env \<Rightarrow> ISummaryContent \<Rightarrow> ('p, 'q) ScribeLambda
     \<Rightarrow> Outcome \<times> ('p, 'q) ScribeLambda" where
  "sendSummaryNack env contents = sendToDeli env (summaryNackOperation contents)"

definition sendSummaryConfirmationMessage ::
  "('p, 'q) Env \<Rightarrow> int \<Rightarrow> bool \<Rightarrow> bool \<Rightarrow> ('p, 'q) ScribeLambda
     \<Rightarrow> Outcome \<times> ('p, 'q) ScribeLambda" where
  "sendSummaryConfirmationMessage env durableSequenceNumber isClientSummary clearCacheArg =
     sendToDeli env (confirmationOperation durableSequenceNumber isClientSummary clearCacheArg)"

subsection \<open>The handler\<close>

text \<open>The body of the \<open>try\<close> block of the Summarize branch (lines 259 to 326): the call of
  the writer and, for a writer that is not external, the sends and the update of the
  heads, or the SummaryNack and the revert.  Any of the awaited calls may throw;
  \<open>protocolState\<close> and \<open>pendingOps\<close> are the fields of \<open>prevState\<close>.\<close>

definition clientSummaryTry ::
  "Config \<Rightarrow> ('p, 'q) Env \<Rightarrow> ISequencedDocumentMessage \<Rightarrow> 'q
     \<Rightarrow> ISequencedDocumentMessage list \<Rightarrow> ('p, 'q) ScribeLambda
     \<Rightarrow> Outcome \<times> ('p, 'q) ScribeLambda" where
  "clientSummaryTry cfg env operation protocolState pendingOps s =
     (let scribeCheckpoint = generateScribeCheckpoint env s (lastOffset s)
                               (scrubUserDataInSummaries cfg);
          s1 = emit (ClientSummaryCall operation (lastClientSummaryHead s) scribeCheckpoint
                       (pendingCheckpointMessages s) (isEphemeralContainer cfg)) s
      in case writeClientSummary env operation (lastClientSummaryHead s) scribeCheckpoint
                (pendingCheckpointMessages s) (isEphemeralContainer cfg) of
           None \<Rightarrow> (Threw SummaryWriterError, s1)
         | Some summaryResponse \<Rightarrow>
             (if \<not> isExternal env then
                (if status summaryResponse then
                   (case sendSummaryAck env (message summaryResponse) s1 of
                      (Threw e, s2) \<Rightarrow> (Threw e, s2)
                    | (Returned, s2) \<Rightarrow>
                        (case sendSummaryConfirmationMessage env
                                (op_sequenceNumber operation) True False s2 of
                           (Threw e, s3) \<Rightarrow> (Threw e, s3)
                         | (Returned, s3) \<Rightarrow>
                             (let s4 = updateProtocolHead
                                         (handlerSequenceNumber env (protocolHandler s3)) s3;
                                  s5 = updateLastSummarySequenceNumber
                                         (handlerSequenceNumber env (protocolHandler s4)) s4
                              in (Returned, s5))))
                 else
                   (case sendSummaryNack env (message summaryResponse) s1 of
                      (Threw e, s2) \<Rightarrow> (Threw e, s2)
                    | (Returned, s2) \<Rightarrow>
                        (Returned, revertProtocolState env protocolState pendingOps s2)))
              else (Returned, s1)))"

text \<open>The \<open>try\<close> with its \<open>catch\<close> (lines 258 to 351): whatever the body threw, the
  protocol state is reverted; then a SummaryNack is sent when storage exceptions are to be
  ignored (a send that may throw in turn), else the error is thrown again.\<close>

definition clientSummary ::
  "Config \<Rightarrow> ('p, 'q) Env \<Rightarrow> ISequencedDocumentMessage \<Rightarrow> 'q
     \<Rightarrow> ISequencedDocumentMessage list \<Rightarrow> ('p, 'q) ScribeLambda
     \<Rightarrow> Outcome \<times> ('p, 'q) ScribeLambda" where
  "clientSummary cfg env operation protocolState pendingOps s =
     (case clientSummaryTry cfg env operation protocolState pendingOps s of
        (Returned, s1) \<Rightarrow> (Returned, s1)
      | (Threw e, s1) \<Rightarrow>
          (let s2 = revertProtocolState env protocolState pendingOps s1
           in if ignoreStorageException cfg then
                sendSummaryNack env
                  \<lparr>sc_handle = None,
                   sc_message = Some ''Failed to summarize the document.'',
                   sc_summarySequenceNumber = op_sequenceNumber operation\<rparr> s2
              else (Threw e, s2)))"

text \<open>The Summarize branch (lines 235 to 353).\<close>

definition handleSummarize ::
  "Config \<Rightarrow> ('p, 'q) Env \<Rightarrow> IQueuedMessage \<Rightarrow> ISequencedDocumentMessage
     \<Rightarrow> ('p, 'q) ScribeLambda \<Rightarrow> Outcome \<times> ('p, 'q) ScribeLambda" where
  "handleSummarize cfg env msg operation s =
     (if \<not> isExternal env
         \<or> op_referenceSequenceNumber operation
             \<ge> handlerSequenceNumber env (protocolHandler s) then
        (let protocolState = getProtocolState env (protocolHandler s) False;
             pendingOps = pendingMessages s
         in case processFromPending cfg env (op_referenceSequenceNumber operation) msg s of
              (Threw e, s1) \<Rightarrow> (Threw e, s1)
            | (Returned, s1) \<Rightarrow>
                (if protocolHead s1 < handlerSequenceNumber env (protocolHandler s1) then
                   clientSummary cfg env operation protocolState pendingOps s1
                 else (Returned, s1)))
      else (Returned, s))"

text \<open>The NoClient branch (lines 355 to 438).  \<open>if (summaryResponse)\<close> holds for a
  handle that is not the empty string.  The \<open>try\<close> (lines 380 to 437) covers the call of
  the writer and the send of the control op: when either throws, the \<open>catch\<close> goes on
  if storage exceptions are to be ignored, and else marks the document corrupt and throws
  again.\<close>

definition handleNoClient ::
  "Config \<Rightarrow> ('p, 'q) Env \<Rightarrow> ISequencedDocumentMessage \<Rightarrow> ('p, 'q) ScribeLambda
     \<Rightarrow> Outcome \<times> ('p, 'q) ScribeLambda" where
  "handleNoClient cfg env operation s =
     (if op_referenceSequenceNumber operation \<noteq> op_sequenceNumber operation
         \<or> op_minimumSequenceNumber operation \<noteq> op_sequenceNumber operation then
        (Threw AssertionError, s)
      else
        (let s1 = s\<lparr>documentCheckpointManager :=
                      setNoActiveClients True (documentCheckpointManager s),
                    globalCheckpointOnly := True\<rparr>;
             enableServiceSummaryForTenant =
               (disableTransientTenantFiltering cfg \<or> \<not> tenantIsTransient cfg)
         in if generateServiceSummary cfg \<and> \<not> isEphemeralContainer cfg
               \<and> enableServiceSummaryForTenant then
              (let scribeCheckpoint = generateScribeCheckpoint env s1 (lastOffset s1)
                                        (scrubUserDataInSummaries cfg);
                   s2 = emit (ServiceSummaryCall operation (protocolHead s1) scribeCheckpoint
                                (pendingCheckpointMessages s1)) s1
               in case writeServiceSummary env operation (protocolHead s1) scribeCheckpoint
                         (pendingCheckpointMessages s1) of
                    Some summaryResponse \<Rightarrow>
                      (case summaryResponse of
                         Some summaryHandle \<Rightarrow>
                           (if summaryHandle \<noteq> [] then
                              (let s3 = (if clearCacheAfterServiceSummary cfg
                                         then s2\<lparr>clearCache := True\<rparr> else s2)
                               in case sendSummaryConfirmationMessage env
                                         (op_sequenceNumber operation) False
                                         (clearCacheAfterServiceSummary cfg) s3 of
                                    (Returned, s4) \<Rightarrow>
                                      (let s5 = updateLastSummarySequenceNumber
                                                  (op_sequenceNumber operation) s4
                                       in (Returned,
                                           updateValidParentSummaries cfg summaryHandle s5))
                                  | (Threw e, s4) \<Rightarrow>
                                      (if ignoreStorageException cfg then (Returned, s4)
                                       else (Threw e, s4\<lparr>isDocumentCorrupt := True\<rparr>)))
                            else (Returned, s2))
                       | None \<Rightarrow> (Returned, s2))
                  | None \<Rightarrow>
                      (if ignoreStorageException cfg then (Returned, s2)
                       else (Threw SummaryWriterError, s2\<lparr>isDocumentCorrupt := True\<rparr>)))
            else (Returned, s1)))"

text \<open>The SummaryAck branch (lines 439 to 456).\<close>

definition handleSummaryAck ::
  "('p, 'q) Env \<Rightarrow> ISequencedDocumentMessage \<Rightarrow> ('p, 'q) ScribeLambda
     \<Rightarrow> Outcome \<times> ('p, 'q) ScribeLambda" where
  "handleSummaryAck env operation s =
     (case op_summaryAck operation of
        None \<Rightarrow> (Threw ContentError, s)
      | Some content \<Rightarrow>
          (let s1 = s\<lparr>lastClientSummaryHead := sc_handle content,
                      validParentSummaries := None\<rparr>
           in if isExternal env then
                (Returned,
                 updateLastSummarySequenceNumber (sc_summarySequenceNumber content)
                   (updateProtocolHead (sc_summarySequenceNumber content) s1))
              else (Returned, s1)))"

text \<open>The dispatch on the type of the op (lines 234 to 462).\<close>

definition dispatchOp ::
  "Config \<Rightarrow> ('p, 'q) Env \<Rightarrow> IQueuedMessage \<Rightarrow> ISequencedDocumentMessage
     \<Rightarrow> ('p, 'q) ScribeLambda \<Rightarrow> Outcome \<times> ('p, 'q) ScribeLambda" where
  "dispatchOp cfg env msg operation s =
     (if op_type operation = Summarize \<and> \<not> op_deliAcked operation then
        handleSummarize cfg env msg operation s
      else if op_type operation = NoClient then handleNoClient cfg env operation s
      else if op_type operation = SummaryAck then handleSummaryAck env operation s
      else if op_type operation = ClientJoin \<and> localCheckpointEnabled cfg then
        (Returned, s\<lparr>globalCheckpointOnly := False\<rparr>)
      else (Returned, s))"

text \<open>The last sequence number known to the protocol side (lines 185 to 187).\<close>

definition lastProtocolHandlerSequenceNumber ::
  "('p, 'q) Env \<Rightarrow> ('p, 'q) ScribeLambda \<Rightarrow> int" where
  "lastProtocolHandlerSequenceNumber env s =
     (case pendingMessages s of
        [] \<Rightarrow> handlerSequenceNumber env (protocolHandler s)
      | _ \<Rightarrow> op_sequenceNumber (last (pendingMessages s)))"

text \<open>The check of the sequence number and the filling of a gap (lines 194 to 212).\<close>

definition fillGap ::
  "('p, 'q) Env \<Rightarrow> ISequencedDocumentMessage \<Rightarrow> ('p, 'q) ScribeLambda
     \<Rightarrow> Outcome \<times> ('p, 'q) ScribeLambda" where
  "fillGap env operation s =
     (let lastKnown = lastProtocolHandlerSequenceNumber env s
      in if op_sequenceNumber operation \<noteq> lastKnown + 1 then
           (case pendingMessageReader env of
              None \<Rightarrow> (Threw (InvalidSequenceNumber (op_sequenceNumber operation) lastKnown), s)
            | Some readMessages \<Rightarrow>
                (let from = lastKnown + 1;
                     to = op_sequenceNumber operation - 1;
                     s1 = emit (ReadMessages from to) s
                 in case readMessages from to of
                      None \<Rightarrow> (Threw PendingMessageReaderError, s1)
                    | Some additionalPendingMessages \<Rightarrow>
                        (Returned,
                         s1\<lparr>pendingMessages :=
                              pendingMessages s1 @ additionalPendingMessages\<rparr>)))
         else (Returned, s))"

text \<open>Lines 214 to 225: the op joins the buffers and the sequence numbers are updated.\<close>

definition pushOp ::
  "Config \<Rightarrow> ISequencedDocumentMessage \<Rightarrow> ('p, 'q) ScribeLambda \<Rightarrow> ('p, 'q) ScribeLambda" where
  "pushOp cfg operation s =
     (let s1 = s\<lparr>pendingMessages := pendingMessages s @ [operation]\<rparr>;
          s2 = (if enablePendingCheckpointMessages cfg
                then s1\<lparr>pendingCheckpointMessages :=
                          pendingCheckpointMessages s1 @ [operation]\<rparr>
                else s1)
      in s2\<lparr>sequenceNumber := op_sequenceNumber operation,
            minSequenceNumber := op_minimumSequenceNumber operation\<rparr>)"

text \<open>Lines 214 to 232: after the push, the protocol handler advances to a changed
  minimum sequence number.\<close>

definition acceptOp ::
  "Config \<Rightarrow> ('p, 'q) Env \<Rightarrow> IQueuedMessage \<Rightarrow> ISequencedDocumentMessage
     \<Rightarrow> ('p, 'q) ScribeLambda \<Rightarrow> Outcome \<times> ('p, 'q) ScribeLambda" where
  "acceptOp cfg env msg operation s =
     (let msnChanged = (minSequenceNumber s \<noteq> op_minimumSequenceNumber operation);
          s3 = pushOp cfg operation s
      in case (if msnChanged then processFromPending cfg env (minSequenceNumber s3) msg s3
               else (Returned, s3)) of
           (Threw e, s4) \<Rightarrow> (Threw e, s4)
         | (Returned, s4) \<Rightarrow> (Returned, s4\<lparr>clearCache := False\<rparr>))"

text \<open>One round of the loop over the boxcar (lines 176 to 463) for a sequenced operation.\<close>

definition handleOp ::
  "Config \<Rightarrow> ('p, 'q) Env \<Rightarrow> IQueuedMessage \<Rightarrow> ISequencedDocumentMessage
     \<Rightarrow> ('p, 'q) ScribeLambda \<Rightarrow> Outcome \<times> ('p, 'q) ScribeLambda" where
  "handleOp cfg env msg operation s =
     (if op_sequenceNumber operation \<le> sequenceNumber s then (Returned, s)
      else if op_sequenceNumber operation \<le> lastProtocolHandlerSequenceNumber env s
      then (Returned, s)
      else
        (case fillGap env operation s of
           (Threw e, s1) \<Rightarrow> (Threw e, s1)
         | (Returned, s1) \<Rightarrow>
             (case acceptOp cfg env msg operation s1 of
                (Threw e, s2) \<Rightarrow> (Threw e, s2)
              | (Returned, s2) \<Rightarrow> dispatchOp cfg env msg operation s2)))"

fun handleBoxcar ::
  "Config \<Rightarrow> ('p, 'q) Env \<Rightarrow> IQueuedMessage \<Rightarrow> BaseMessage list
     \<Rightarrow> ('p, 'q) ScribeLambda \<Rightarrow> Outcome \<times> ('p, 'q) ScribeLambda" where
  "handleBoxcar cfg env msg [] s = (Returned, s)"
| "handleBoxcar cfg env msg (OtherMessage # rest) s = handleBoxcar cfg env msg rest s"
| "handleBoxcar cfg env msg (SequencedOperation operation # rest) s =
     (case handleOp cfg env msg operation s of
        (Threw e, s1) \<Rightarrow> (Threw e, s1)
      | (Returned, s1) \<Rightarrow> handleBoxcar cfg env msg rest s1)"

text \<open>\<open>getCheckpointReason\<close> (lines 852 to 873).\<close>

definition getCheckpointReason ::
  "Config \<Rightarrow> ('p, 'q) Env \<Rightarrow> ('p, 'q) ScribeLambda \<Rightarrow> CheckpointReason option" where
  "getCheckpointReason cfg env s =
     (let heuristics = checkpointHeuristics cfg
      in if \<not> enable heuristics then Some EveryMessage
         else if rawMessagesSinceCheckpoint (documentCheckpointManager s)
                   \<ge> maxMessages heuristics then Some MaxMessages
         else if now env - lastCheckpointTime (documentCheckpointManager s)
                   \<ge> maxTime heuristics then Some MaxTime
         else None)"

text \<open>The end of the handler (lines 466 to 488).\<close>

definition createCheckpoint ::
  "Config \<Rightarrow> ('p, 'q) Env \<Rightarrow> IQueuedMessage \<Rightarrow> ('p, 'q) ScribeLambda
     \<Rightarrow> ('p, 'q) ScribeLambda" where
  "createCheckpoint cfg env msg s =
     (let s1 = s\<lparr>documentCheckpointManager :=
                   incrementRawMessageCounter
                     (updateCheckpointMessages msg (documentCheckpointManager s))\<rparr>
      in if noActiveClients (documentCheckpointManager s1) then
           (let s2 = (if localCheckpointEnabled cfg then s1\<lparr>globalCheckpointOnly := True\<rparr>
                      else s1);
                s3 = prepareCheckpoint cfg env msg NoClients False s2
            in s3\<lparr>documentCheckpointManager :=
                    setNoActiveClients False (documentCheckpointManager s3)\<rparr>)
         else
           (case getCheckpointReason cfg env s1 of
              None \<Rightarrow>
                emit (IdleTimerArmed (idleTime (checkpointHeuristics cfg)) (isDocumentCorrupt s1))
                  (s1\<lparr>documentCheckpointManager :=
                        updateCheckpointIdleTimer (documentCheckpointManager s1)\<rparr>)
            | Some checkpointReason \<Rightarrow> prepareCheckpoint cfg env msg checkpointReason False s1))"

text \<open>\<open>handler\<close> (lines 139 to 489).\<close>

definition handler ::
  "Config \<Rightarrow> ('p, 'q) Env \<Rightarrow> IQueuedMessage \<Rightarrow> ('p, 'q) ScribeLambda
     \<Rightarrow> Outcome \<times> ('p, 'q) ScribeLambda" where
  "handler cfg env msg s =
     (if (case lastOffset s of None \<Rightarrow> False | Some offset \<Rightarrow> qm_offset msg \<le> offset) then
        (let s1 = s\<lparr>documentCheckpointManager :=
                      updateCheckpointMessages msg (documentCheckpointManager s)\<rparr>
         in (Returned,
             if kafkaCheckpointOnReprocessingOp cfg
             then emit (KafkaCheckpoint msg (restartOnCheckpointFailure cfg)) s1
             else s1))
      else
        (case handleBoxcar cfg env msg (qm_boxcar msg) (s\<lparr>lastOffset := Some (qm_offset msg)\<rparr>) of
           (Threw e, s1) \<Rightarrow> (Threw e, s1)
         | (Returned, s1) \<Rightarrow> (Returned, createCheckpoint cfg env msg s1)))"

subsection \<open>The states an instance can reach\<close>

text \<open>
  An instance is driven by its public methods (\<open>handler\<close>, \<open>prepareCheckpoint\<close>,
  \<open>close\<close>), by the idle timer calling \<open>idleTimeCheckpoint\<close>, and by the database
  operation in flight settling.  The collaborators may answer differently at every step.
  A call of the handler is one step: a database operation settles between two calls.
\<close>

inductive reachableFrom ::
  "Config \<Rightarrow> ('p, 'q) ScribeLambda \<Rightarrow> ('p, 'q) ScribeLambda \<Rightarrow> bool"
  for cfg :: Config and s0 :: "('p, 'q) ScribeLambda" where
  start: "reachableFrom cfg s0 s0"
| handlerStep: "reachableFrom cfg s0 s \<Longrightarrow> handler cfg env msg s = (out, s')
     \<Longrightarrow> reachableFrom cfg s0 s'"
| settleStep: "reachableFrom cfg s0 s \<Longrightarrow> reachableFrom cfg s0 (settle cfg ok s)"
| idleStep: "reachableFrom cfg s0 s
     \<Longrightarrow> reachableFrom cfg s0 (idleTimeCheckpoint cfg env m s)"
| prepareStep: "reachableFrom cfg s0 s
     \<Longrightarrow> reachableFrom cfg s0 (prepareCheckpoint cfg env msg r skip s)"
| closeStep: "reachableFrom cfg s0 s \<Longrightarrow> reachableFrom cfg s0 (close s)"

definition reachable :: "Config \<Rightarrow> ('p, 'q) ScribeLambda \<Rightarrow> bool" where
  "reachable cfg s =
     (\<exists>scribe handler0 head0 messages t0.
        reachableFrom cfg (newScribeLambda cfg scribe handler0 head0 messages t0) s)"

subsection \<open>Concrete instances\<close>

text \<open>A configuration, collaborators and messages on which the theorems below are run.
  The protocol handler of \<open>exampleEnv\<close> is its sequence number; it throws on a Propose op
  (contents that do not parse) and otherwise moves to the op's sequence number.\<close>

definition exampleConfig :: Config where
  "exampleConfig =
     \<lparr>enablePendingCheckpointMessages = True, generateServiceSummary = True,
      scrubUserDataInSummaries = False, scrubUserDataInGlobalCheckpoints = False,
      scrubUserDataInLocalCheckpoints = False, clearCacheAfterServiceSummary = False,
      ignoreStorageException = False,
      maxTrackedServiceSummaryVersionsSinceLastClientSummary = 2,
      checkpointHeuristics =
        \<lparr>enable = False, maxMessages = 10, maxTime = 1000, idleTime = 100\<rparr>,
      tenantIsTransient = False, disableTransientTenantFiltering = False,
      restartOnCheckpointFailure = False, kafkaCheckpointOnReprocessingOp = True,
      isEphemeralContainer = False, localCheckpointEnabled = False,
      maxPendingCheckpointMessagesLength = 5\<rparr>"

definition exampleAck :: "int \<Rightarrow> ISummaryContent" where
  "exampleAck n = \<lparr>sc_handle = Some ''H1'', sc_message = None, sc_summarySequenceNumber = n\<rparr>"

definition exampleNack :: "int \<Rightarrow> ISummaryContent" where
  "exampleNack n =
     \<lparr>sc_handle = None, sc_message = Some ''rejected'', sc_summarySequenceNumber = n\<rparr>"

definition exampleEnv :: "bool \<Rightarrow> (int, int) Env" where
  "exampleEnv accept =
     \<lparr>processMessage = (\<lambda>h m. (op_type m \<noteq> Propose, op_sequenceNumber m)),
      handlerSequenceNumber = (\<lambda>h. h),
      getProtocolState = (\<lambda>h scrub. h),
      initializeProtocol = (\<lambda>q. q),
      isExternal = False,
      writeClientSummary = (\<lambda>operation head cp pcm eph.
         Some \<lparr>status = accept,
               message = (if accept then exampleAck (op_sequenceNumber operation)
                          else exampleNack (op_sequenceNumber operation))\<rparr>),
      writeServiceSummary = (\<lambda>operation head cp pcm. Some (Some ''S1'')),
      pendingMessageReader = None,
      producer = Some (\<lambda>operation. True),
      now = 0\<rparr>"

definition mkOp :: "int \<Rightarrow> int \<Rightarrow> int \<Rightarrow> MessageType \<Rightarrow> ISequencedDocumentMessage" where
  "mkOp sq msn rsq t =
     \<lparr>op_sequenceNumber = sq, op_minimumSequenceNumber = msn,
      op_referenceSequenceNumber = rsq, op_type = t, op_deliAcked = False,
      op_summaryAck = None\<rparr>"

definition mkBatch :: "int \<Rightarrow> ISequencedDocumentMessage list \<Rightarrow> IQueuedMessage" where
  "mkBatch off ops =
     \<lparr>qm_offset = off, qm_partition = 0, qm_boxcar = map SequencedOperation ops\<rparr>"

definition exampleScribe :: "int \<Rightarrow> int \<Rightarrow> string list option \<Rightarrow> bool \<Rightarrow> int IScribe" where
  "exampleScribe off sq parents corrupt =
     \<lparr>cp_lastSummarySequenceNumber = None, cp_lastClientSummaryHead = None,
      cp_logOffset = Some off, cp_minimumSequenceNumber = sq, cp_protocolState = sq,
      cp_sequenceNumber = sq, cp_validParentSummaries = parents, cp_isCorrupt = corrupt,
      cp_protocolHead = 0, cp_checkpointTimestamp = 0\<rparr>"

definition exampleLambda :: "int \<Rightarrow> int \<Rightarrow> (int, int) ScribeLambda" where
  "exampleLambda off sq =
     newScribeLambda exampleConfig (exampleScribe off sq None False) sq 0 [] 0"

lemmas example_defs =
  exampleConfig_def exampleEnv_def exampleAck_def exampleNack_def mkOp_def mkBatch_def
  exampleScribe_def exampleLambda_def newScribeLambda_def setStateFromCheckpoint_def

lemmas checkpoint_defs =
  emit_def prepareCheckpoint_def checkpointCore_def generateScribeCheckpoint_def
  isGlobalCheckpoint_def updateCheckpointMessages_def resetCheckpointTimer_def
  incrementRawMessageCounter_def setNoActiveClients_def updateCheckpointIdleTimer_def
  markDocumentAsCorrupt_def settle_def checkpointThen_def writeCheckpointDone_def
  idleTimeCheckpoint_def close_def

lemmas handler_defs =
  handler_def handleOp_def lastProtocolHandlerSequenceNumber_def fillGap_def acceptOp_def
  pushOp_def dispatchOp_def handleSummarize_def clientSummary_def clientSummaryTry_def
  delivers_def sendToDeli_def summaryAckOperation_def summaryNackOperation_def
  confirmationOperation_def handleNoClient_def
  handleSummaryAck_def processFromPending_def revertProtocolState_def
  updateProtocolHead_def updateLastSummarySequenceNumber_def
  updateValidParentSummaries_def sendSummaryAck_def sendSummaryNack_def
  sendSummaryConfirmationMessage_def createCheckpoint_def getCheckpointReason_def

subsection \<open>Notions of the specification\<close>

text \<open>The selection of a checkpoint reason as the specification words it: the first of
  the conditions that holds, in this order.\<close>

definition specCheckpointReason ::
  "bool \<Rightarrow> int \<Rightarrow> int \<Rightarrow> int \<Rightarrow> int \<Rightarrow> CheckpointReason option" where
  "specCheckpointReason heuristicsEnabled rawMessages maxMsgs elapsed maxElapsed =
     (if \<not> heuristicsEnabled then Some EveryMessage
      else if rawMessages \<ge> maxMsgs then Some MaxMessages
      else if elapsed \<ge> maxElapsed then Some MaxTime
      else None)"

text \<open>A Summarize op at sequence number 11 that refers to sequence number 10, and two
  lambdas that have just accepted it: one whose protocol handler is at 10, one whose
  protocol handler is at 8 with the ops 9 and 10 still pending.\<close>

definition summarizeOp :: ISequencedDocumentMessage where
  "summarizeOp = mkOp 11 10 10 Summarize"

definition summarizeState :: "(int, int) ScribeLambda" where
  "summarizeState = (exampleLambda 5 10)
     \<lparr>lastOffset := Some 6, pendingMessages := [summarizeOp],
      pendingCheckpointMessages := [summarizeOp], sequenceNumber := 11\<rparr>"

text \<open>The same collaborators with no producer.\<close>

definition noProducerEnv :: "(int, int) Env" where
  "noProducerEnv = (exampleEnv True)\<lparr>producer := None\<rparr>"


text \<open>The sequence numbers of a buffer continue \<open>n\<close> without a gap: they are
  \<open>n + 1\<close>, \<open>n + 2\<close>, and so on.\<close>

fun contiguousFrom :: "int \<Rightarrow> ISequencedDocumentMessage list \<Rightarrow> bool" where
  "contiguousFrom n [] = True"
| "contiguousFrom n (m # ms) = (op_sequenceNumber m = n + 1 \<and> contiguousFrom (n + 1) ms)"

text \<open>Collaborators with a pending message reader that answers with the ops 5 and 6.\<close>

definition readerEnv :: "(int, int) Env" where
  "readerEnv = (exampleEnv True)
     \<lparr>pendingMessageReader :=
        Some (\<lambda>from to. Some [mkOp 5 4 4 Operation, mkOp 6 4 5 Operation])\<rparr>"

text \<open>The ops a database operation in flight was handed for insertion, the ops that
  writes which resolved have inserted, and the invariant of the checkpoint writer: at most
  one database operation is in flight, and then \<open>pendingP\<close> is set; the pending
  checkpoint messages ascend strictly and do not pass \<open>sequenceNumber\<close>; the inserts of
  the write in flight ascend and lie above \<open>lastCheckpointInsertedNumber\<close>; what has been
  inserted does not lie above it.\<close>

definition writeInserts :: "InFlight \<Rightarrow> ISequencedDocumentMessage list" where
  "writeInserts w = (case w_kind w of DeleteWrite \<Rightarrow> [] | CheckpointWrite inserts \<Rightarrow> inserts)"

definition insertedSoFar :: "'q Effect list \<Rightarrow> ISequencedDocumentMessage list" where
  "insertedSoFar es =
     concat (map (\<lambda>e. case e of Settled (CheckpointWrite inserts) True \<Rightarrow> inserts | _ \<Rightarrow> []) es)"

definition checkpointInv :: "('p, 'q) ScribeLambda \<Rightarrow> bool" where
  "checkpointInv s =
     (length (inflight s) \<le> 1
      \<and> (inflight s \<noteq> [] \<longrightarrow> pendingP s)
      \<and> sorted_wrt (<) (map op_sequenceNumber (pendingCheckpointMessages s))
      \<and> (\<forall>m \<in> set (pendingCheckpointMessages s). op_sequenceNumber m \<le> sequenceNumber s)
      \<and> (\<forall>w \<in> set (inflight s).
            sorted_wrt (<) (map op_sequenceNumber (writeInserts w))
            \<and> (\<forall>m \<in> set (writeInserts w).
                  lastCheckpointInsertedNumber s < op_sequenceNumber m))
      \<and> (\<forall>m \<in> set (insertedSoFar (effects s)).
            op_sequenceNumber m \<le> lastCheckpointInsertedNumber s))"

text \<open>A database operation in flight has captured \<open>clearCache\<close> exactly when it is
  the delete.\<close>

definition inflightKinds :: "('p, 'q) ScribeLambda \<Rightarrow> bool" where
  "inflightKinds s =
     list_all (\<lambda>w. w_clearCache w = (w_kind w = DeleteWrite)) (inflight s)"

text \<open>The offsets that have been acknowledged to the Kafka context.\<close>

definition acknowledged :: "'q Effect list \<Rightarrow> int list" where
  "acknowledged es =
     concat (map (\<lambda>e. case e of KafkaCheckpoint m r \<Rightarrow> [qm_offset m] | _ \<Rightarrow> []) es)"

text \<open>A run of the example lambda: a first batch whose checkpoint write is in flight
  when the next batch arrives; the next batch is either an ordinary one or one on which the
  protocol handler throws; the latter also after the first write has settled; and the
  lambda closed with the second checkpoint queued.\<close>

definition firstBatch :: IQueuedMessage where
  "firstBatch = mkBatch 10 [mkOp 1 0 0 Operation]"

definition secondBatch :: IQueuedMessage where
  "secondBatch = mkBatch 11 [mkOp 2 0 1 Operation]"

definition corruptBatch :: IQueuedMessage where
  "corruptBatch = mkBatch 11 [mkOp 2 2 1 Propose]"

definition afterFirst :: "(int, int) ScribeLambda" where
  "afterFirst = snd (handler exampleConfig (exampleEnv True) firstBatch (exampleLambda (- 1) 0))"

definition afterSecond :: "(int, int) ScribeLambda" where
  "afterSecond = snd (handler exampleConfig (exampleEnv True) secondBatch afterFirst)"

definition afterCorrupt :: "(int, int) ScribeLambda" where
  "afterCorrupt = snd (handler exampleConfig (exampleEnv True) corruptBatch afterFirst)"

definition afterCorruptSettled :: "(int, int) ScribeLambda" where
  "afterCorruptSettled =
     snd (handler exampleConfig (exampleEnv True) corruptBatch (settle exampleConfig True afterFirst))"

definition afterSecondClosed :: "(int, int) ScribeLambda" where
  "afterSecondClosed = close afterSecond"

text \<open>A run with \<open>clearCacheAfterServiceSummary\<close>: a batch with a NoClient op, whose
  checkpoint is the delete of the cache, and a next batch that arrives while the delete is
  in flight; and the calls of the checkpoint manager among the effects.\<close>

definition clearCacheConfig :: Config where
  "clearCacheConfig = exampleConfig\<lparr>clearCacheAfterServiceSummary := True\<rparr>"

definition afterNoClient :: "(int, int) ScribeLambda" where
  "afterNoClient =
     snd (handler clearCacheConfig (exampleEnv True) (mkBatch 10 [mkOp 1 1 1 NoClient])
            (exampleLambda (- 1) 0))"

definition afterNoClientNext :: "(int, int) ScribeLambda" where
  "afterNoClientNext =
     snd (handler clearCacheConfig (exampleEnv True) (mkBatch 11 [mkOp 2 1 1 Operation])
            afterNoClient)"

definition managerCalls :: "'q Effect list \<Rightarrow> 'q Effect list" where
  "managerCalls es =
     filter (\<lambda>e. case e of ManagerWrite cp h ins a b c \<Rightarrow> True
                         | ManagerDelete h d \<Rightarrow> True
                         | _ \<Rightarrow> False) es"

text \<open>The bound on the tracked service summaries, and the ops sent to the producer.\<close>

definition withinLimit :: "Config \<Rightarrow> ('p, 'q) ScribeLambda \<Rightarrow> bool" where
  "withinLimit cfg s =
     (case validParentSummaries s of
        None \<Rightarrow> True
      | Some handles \<Rightarrow>
          int (length handles) \<le> maxTrackedServiceSummaryVersionsSinceLastClientSummary cfg)"

definition sentToDeli :: "'q Effect list \<Rightarrow> IDocumentSystemMessage list" where
  "sentToDeli es = concat (map (\<lambda>e. case e of SendToDeli m \<Rightarrow> [m] | _ \<Rightarrow> []) es)"


definition corruptLambda :: "(int, int) ScribeLambda" where
  "corruptLambda = newScribeLambda exampleConfig (exampleScribe 5 10 None True) 10 0 [] 0"


text \<open>A batch with a NoClient op between two other ops.\<close>

definition mixedBatch :: IQueuedMessage where
  "mixedBatch = mkBatch 6 [mkOp 11 10 10 Operation, mkOp 12 12 12 NoClient,
                           mkOp 13 12 12 ClientJoin]"

text \<open>What a part of the handler does to the corrupt flag: it does not clear it, and
  when it sets it, it does not return and has sent nothing to the producer.\<close>

definition flagStep :: "('p, 'q) ScribeLambda \<Rightarrow> Outcome \<Rightarrow> ('p, 'q) ScribeLambda \<Rightarrow> bool" where
  "flagStep s out s' =
     ((isDocumentCorrupt s \<longrightarrow> isDocumentCorrupt s')
      \<and> (isDocumentCorrupt s' \<and> \<not> isDocumentCorrupt s \<longrightarrow>
           out \<noteq> Returned \<and> sentToDeli (effects s') = sentToDeli (effects s)))"

text \<open>Over a whole batch only the flag part carries over.\<close>

definition flagOnly :: "('p, 'q) ScribeLambda \<Rightarrow> Outcome \<Rightarrow> ('p, 'q) ScribeLambda \<Rightarrow> bool" where
  "flagOnly s out s' =
     ((isDocumentCorrupt s \<longrightarrow> isDocumentCorrupt s')
      \<and> (isDocumentCorrupt s' \<and> \<not> isDocumentCorrupt s \<longrightarrow> out \<noteq> Returned))"

section \<open>Properties\<close>

subsection \<open>A batch that was already processed\<close>

text \<open>
  Claim C6.  For a batch whose offset is at most \<open>lastOffset\<close> the handler returns, and
  the lambda afterwards is the lambda before but for the bookkeeping of the checkpoint
  manager and the effects: sequence numbers, protocol handler, protocol head, both pending
  buffers and the summary fields are the same.  Nothing is sent to the producer; the one
  effect is the acknowledgement of the batch, issued exactly when
  \<open>kafkaCheckpointOnReprocessingOp\<close> is set.
\<close>

theorem handler_duplicate_offset:
  assumes "lastOffset s = Some offset" and "qm_offset msg \<le> offset"
  shows "handler cfg env msg s =
     (Returned,
      s\<lparr>documentCheckpointManager :=
          updateCheckpointMessages msg (documentCheckpointManager s),
        effects := effects s @
          (if kafkaCheckpointOnReprocessingOp cfg
           then [KafkaCheckpoint msg (restartOnCheckpointFailure cfg)] else [])\<rparr>)"
  using assms by (simp add: handler_def emit_def)

theorem handler_duplicate_offset_witness:
  "lastOffset (exampleLambda 100 10) = Some 100
   \<and> qm_offset (mkBatch 80 [mkOp 11 10 10 Summarize]) \<le> 100
   \<and> fst (handler exampleConfig (exampleEnv True) (mkBatch 80 [mkOp 11 10 10 Summarize])
            (exampleLambda 100 10)) = Returned
   \<and> effects (snd (handler exampleConfig (exampleEnv True)
                      (mkBatch 80 [mkOp 11 10 10 Summarize]) (exampleLambda 100 10)))
       = [KafkaCheckpoint (mkBatch 80 [mkOp 11 10 10 Summarize]) False]
   \<and> sequenceNumber (snd (handler exampleConfig (exampleEnv True)
                      (mkBatch 80 [mkOp 11 10 10 Summarize]) (exampleLambda 100 10))) = 10"
proof -
  have a: "lastOffset (exampleLambda 100 10) = Some 100"
    by (simp add: example_defs)
  have b: "qm_offset (mkBatch 80 [mkOp 11 10 10 Summarize]) \<le> 100"
    by (simp add: mkBatch_def)
  show ?thesis
    using handler_duplicate_offset [OF a b, of exampleConfig "exampleEnv True"] a b
    by (simp add: example_defs)
qed

subsection \<open>Auxiliary facts\<close>

lemma processFromPending_Returned:
  assumes "processFromPending cfg env target msg s = (Returned, s1)"
  shows "\<exists>rest h. s1 = s\<lparr>pendingMessages := rest, protocolHandler := h\<rparr>"
  using assms by (auto simp: processFromPending_def Let_def split: prod.splits if_splits)

lemma last_effects_prepareCheckpoint:
  "last (effects (prepareCheckpoint cfg env msg r skip s)) = CheckpointLog r"
  by (simp add: prepareCheckpoint_def emit_def Let_def)

subsection \<open>The reason of a checkpoint\<close>

lemma checkpointCore_seen:
  "documentCheckpointManager (checkpointCore cfg cp m cc skip s) = documentCheckpointManager s"
  by (simp add: checkpointCore_def emit_def Let_def)

lemma prepareCheckpoint_seen:
  "noActiveClients (documentCheckpointManager (prepareCheckpoint cfg env m r skip s))
     = noActiveClients (documentCheckpointManager s)"
  by (simp add: prepareCheckpoint_def emit_def Let_def checkpointCore_seen
      resetCheckpointTimer_def updateCheckpointMessages_def)

lemma processFromPending_seen:
  "processFromPending cfg env target m s = (out, s')
     \<Longrightarrow> noActiveClients (documentCheckpointManager s')
           = noActiveClients (documentCheckpointManager s)"
  by (auto simp: processFromPending_def markDocumentAsCorrupt_def Let_def
      prepareCheckpoint_seen split: prod.splits if_splits)

lemma clientSummary_seen:
  "clientSummary cfg env operation ps po s = (out, s')
     \<Longrightarrow> documentCheckpointManager s' = documentCheckpointManager s"
  by (auto simp: clientSummary_def clientSummaryTry_def sendToDeli_def Let_def
      sendSummaryAck_def sendSummaryNack_def
      sendSummaryConfirmationMessage_def updateProtocolHead_def emit_def
      updateLastSummarySequenceNumber_def revertProtocolState_def
      split: option.splits if_splits prod.splits Outcome.splits)

lemma handleSummarize_seen:
  assumes "handleSummarize cfg env m operation s = (out, s')"
  shows "noActiveClients (documentCheckpointManager s')
           = noActiveClients (documentCheckpointManager s)"
proof (cases "\<not> isExternal env \<or> op_referenceSequenceNumber operation
             \<ge> handlerSequenceNumber env (protocolHandler s)")
  case False
  with assms show ?thesis by (auto simp: handleSummarize_def)
next
  case True
  obtain o1 s1 where p: "processFromPending cfg env (op_referenceSequenceNumber operation) m s
      = (o1, s1)" by (cases "processFromPending cfg env (op_referenceSequenceNumber operation) m s")
  note f = processFromPending_seen [OF p]
  show ?thesis
  proof (cases o1)
    case (Threw e)
    with assms True p f show ?thesis by (auto simp: handleSummarize_def Let_def)
  next
    case Returned
    show ?thesis
    proof (cases "protocolHead s1 < handlerSequenceNumber env (protocolHandler s1)")
      case False
      with assms True p f Returned show ?thesis by (auto simp: handleSummarize_def Let_def)
    next
      case lt: True
      from assms True p Returned lt
      have "clientSummary cfg env operation (getProtocolState env (protocolHandler s) False)
              (pendingMessages s) s1 = (out, s')"
        by (auto simp: handleSummarize_def Let_def)
      from clientSummary_seen [OF this] f show ?thesis by simp
    qed
  qed
qed

lemma handleNoClient_seen:
  "handleNoClient cfg env operation s = (Returned, s')
     \<Longrightarrow> noActiveClients (documentCheckpointManager s')"
  by (auto simp: handleNoClient_def Let_def setNoActiveClients_def emit_def
      updateValidParentSummaries_def updateLastSummarySequenceNumber_def
      sendSummaryConfirmationMessage_def sendToDeli_def
      split: if_splits option.splits prod.splits Outcome.splits)

lemma handleNoClient_keeps:
  "handleNoClient cfg env operation s = (out, s')
     \<Longrightarrow> noActiveClients (documentCheckpointManager s)
     \<Longrightarrow> noActiveClients (documentCheckpointManager s')"
  by (auto simp: handleNoClient_def Let_def setNoActiveClients_def emit_def
      updateValidParentSummaries_def updateLastSummarySequenceNumber_def
      sendSummaryConfirmationMessage_def sendToDeli_def
      split: if_splits option.splits prod.splits Outcome.splits)

lemma handleSummaryAck_seen:
  "handleSummaryAck env operation s = (out, s')
     \<Longrightarrow> documentCheckpointManager s' = documentCheckpointManager s"
  by (auto simp: handleSummaryAck_def Let_def updateProtocolHead_def
      updateLastSummarySequenceNumber_def split: option.splits if_splits)

lemma dispatchOp_keeps:
  "dispatchOp cfg env m operation s = (out, s')
     \<Longrightarrow> noActiveClients (documentCheckpointManager s)
     \<Longrightarrow> noActiveClients (documentCheckpointManager s')"
  by (auto simp: dispatchOp_def handleSummarize_seen handleSummaryAck_seen
      split: if_splits dest: handleNoClient_keeps)

lemma fillGap_seen:
  "fillGap env operation s = (out, s')
     \<Longrightarrow> documentCheckpointManager s' = documentCheckpointManager s"
  by (auto simp: fillGap_def Let_def emit_def split: option.splits if_splits)

lemma acceptOp_seen:
  assumes "acceptOp cfg env m operation s = (out, s')"
  shows "noActiveClients (documentCheckpointManager s')
           = noActiveClients (documentCheckpointManager s)"
proof -
  let ?p = "pushOp cfg operation s"
  have pf: "documentCheckpointManager ?p = documentCheckpointManager s"
    by (simp add: pushOp_def Let_def)
  show ?thesis
  proof (cases "minSequenceNumber s \<noteq> op_minimumSequenceNumber operation")
    case False
    with assms pf show ?thesis
      by (auto simp: acceptOp_def Let_def)
  next
    case True
    obtain o1 s1 where p: "processFromPending cfg env (minSequenceNumber ?p) m ?p = (o1, s1)"
      by (cases "processFromPending cfg env (minSequenceNumber ?p) m ?p")
    note f = processFromPending_seen [OF p]
    from assms True p
    have r: "(out, s') = (case o1 of Returned \<Rightarrow> (Returned, s1\<lparr>clearCache := False\<rparr>)
        | Threw e \<Rightarrow> (Threw e, s1))"
      by (simp add: acceptOp_def Let_def split: Outcome.splits)
    show ?thesis
      using r f pf by (cases o1) auto
  qed
qed

lemma handleOp_keeps:
  assumes "handleOp cfg env m operation s = (out, s')"
    and "noActiveClients (documentCheckpointManager s)"
  shows "noActiveClients (documentCheckpointManager s')"
proof (cases "op_sequenceNumber operation \<le> sequenceNumber s
    \<or> op_sequenceNumber operation \<le> lastProtocolHandlerSequenceNumber env s")
  case True
  with assms show ?thesis by (auto simp: handleOp_def split: if_splits)
next
  case False
  obtain o1 s1 where f: "fillGap env operation s = (o1, s1)" by (cases "fillGap env operation s")
  note ff = fillGap_seen [OF f]
  show ?thesis
  proof (cases o1)
    case (Threw e)
    with assms False f ff show ?thesis by (auto simp: handleOp_def)
  next
    case Returned
    obtain o2 s2 where a: "acceptOp cfg env m operation s1 = (o2, s2)"
      by (cases "acceptOp cfg env m operation s1")
    note af = acceptOp_seen [OF a]
    show ?thesis
    proof (cases o2)
      case (Threw e)
      with assms False f Returned a have "out = o2" "s' = s2" by (auto simp: handleOp_def)
      with af ff assms(2) show ?thesis by simp
    next
      case r2: Returned
      with assms False f Returned a have d: "dispatchOp cfg env m operation s2 = (out, s')"
        by (auto simp: handleOp_def)
      from af ff assms(2) have "noActiveClients (documentCheckpointManager s2)" by simp
      from dispatchOp_keeps [OF d this] show ?thesis .
    qed
  qed
qed

lemma handleOp_NoClient:
  assumes "handleOp cfg env m operation s = (Returned, s')"
    and "op_type operation = NoClient"
    and "sequenceNumber s < op_sequenceNumber operation"
    and "lastProtocolHandlerSequenceNumber env s < op_sequenceNumber operation"
  shows "noActiveClients (documentCheckpointManager s')"
proof -
  obtain o1 s1 where f: "fillGap env operation s = (o1, s1)" by (cases "fillGap env operation s")
  obtain o2 s2 where a: "acceptOp cfg env m operation s1 = (o2, s2)"
    by (cases "acceptOp cfg env m operation s1")
  from assms f a have "handleNoClient cfg env operation s2 = (Returned, s')"
    by (cases o1; cases o2) (auto simp: handleOp_def dispatchOp_def)
  then show ?thesis by (rule handleNoClient_seen)
qed

lemma handleBoxcar_keeps:
  "handleBoxcar cfg env m bs s = (out, s')
     \<Longrightarrow> noActiveClients (documentCheckpointManager s)
     \<Longrightarrow> noActiveClients (documentCheckpointManager s')"
proof (induction cfg env m bs s rule: handleBoxcar.induct)
  case (1 cfg env msg s)
  then show ?case by simp
next
  case (2 cfg env msg rest s)
  then show ?case by simp
next
  case (3 cfg env msg operation rest s)
  obtain o1 s1 where h: "handleOp cfg env msg operation s = (o1, s1)"
    by (cases "handleOp cfg env msg operation s")
  note hf = handleOp_keeps [OF h "3.prems"(2)]
  show ?case
  proof (cases o1)
    case Returned
    with "3.prems" h have "handleBoxcar cfg env msg rest s1 = (out, s')" by simp
    from "3.IH" [OF h [symmetric] _ this hf] Returned show ?thesis by simp
  next
    case (Threw e)
    with "3.prems" h hf show ?thesis by auto
  qed
qed

lemma handleBoxcar_append:
  "handleBoxcar cfg env m (xs @ ys) s =
     (case handleBoxcar cfg env m xs s of
        (Threw e, s1) \<Rightarrow> (Threw e, s1)
      | (Returned, s1) \<Rightarrow> handleBoxcar cfg env m ys s1)"
proof (induction cfg env m xs s rule: handleBoxcar.induct)
  case (1 cfg env msg s)
  then show ?case by simp
next
  case (2 cfg env msg rest s)
  then show ?case by simp
next
  case (3 cfg env msg operation rest s)
  obtain o1 s1 where h: "handleOp cfg env msg operation s = (o1, s1)"
    by (cases "handleOp cfg env msg operation s")
  show ?case
  proof (cases o1)
    case Returned
    from "3.IH" [OF h [symmetric] Returned] h Returned show ?thesis by simp
  next
    case (Threw e)
    with h show ?thesis by simp
  qed
qed

lemma createCheckpoint_NoClients:
  "noActiveClients (documentCheckpointManager s)
     \<Longrightarrow> last (effects (createCheckpoint cfg env msg s)) = CheckpointLog NoClients"
  by (simp add: createCheckpoint_def Let_def last_effects_prepareCheckpoint
      incrementRawMessageCounter_def updateCheckpointMessages_def)

lemma handler_NoClient:
  assumes "\<not> (case lastOffset s of None \<Rightarrow> False | Some offset \<Rightarrow> qm_offset msg \<le> offset)"
    and "qm_boxcar msg = before @ SequencedOperation operation # after"
    and "handleBoxcar cfg env msg before (s\<lparr>lastOffset := Some (qm_offset msg)\<rparr>)
           = (Returned, s1)"
    and "op_type operation = NoClient"
    and "sequenceNumber s1 < op_sequenceNumber operation"
    and "lastProtocolHandlerSequenceNumber env s1 < op_sequenceNumber operation"
    and "handler cfg env msg s = (Returned, s')"
  shows "last (effects s') = CheckpointLog NoClients"
proof -
  obtain o2 s2 where h: "handleOp cfg env msg operation s1 = (o2, s2)"
    by (cases "handleOp cfg env msg operation s1")
  obtain o3 s3 where r: "handleBoxcar cfg env msg after s2 = (o3, s3)"
    by (cases "handleBoxcar cfg env msg after s2")
  have b: "handleBoxcar cfg env msg (qm_boxcar msg) (s\<lparr>lastOffset := Some (qm_offset msg)\<rparr>)
      = (case o2 of Threw e \<Rightarrow> (Threw e, s2) | Returned \<Rightarrow> (o3, s3))"
    using assms(2,3) h r by (simp add: handleBoxcar_append split: Outcome.splits)
  from assms(1,7) b have o2: "o2 = Returned" and o3: "o3 = Returned"
    and s': "s' = createCheckpoint cfg env msg s3"
    by (auto simp: handler_def split: Outcome.splits prod.splits)
  from h o2 have "handleOp cfg env msg operation s1 = (Returned, s2)" by simp
  from handleOp_NoClient [OF this assms(4,5,6)]
  have "noActiveClients (documentCheckpointManager s2)" .
  from handleBoxcar_keeps [OF r this]
  have "noActiveClients (documentCheckpointManager s3)" .
  from createCheckpoint_NoClients [OF this] s' show ?thesis by simp
qed

text \<open>
  Claim C9.  \<open>getCheckpointReason\<close> selects the reason as the specification orders the
  conditions: EveryMessage when the heuristics are disabled, else MaxMessages when the raw
  message count has reached \<open>maxMessages\<close>, else MaxTime when the time since the last
  checkpoint has reached \<open>maxTime\<close>, else none.  At the end of a batch the handler first
  counts the batch; when the no-active-clients flag is set the checkpoint is written with
  the reason NoClients whatever the heuristics say; otherwise it is written with the
  selected reason, and when there is none the only effect is the arming of the idle timer.
  A NoClient op that the dispatch has handled leaves the flag set.  And for the handler
  as a whole: when a batch with a new offset holds a NoClient op that is not skipped as
  already processed (its sequence number is above the lambda's and above the last known
  one when the loop reaches it) and the handler returns, the checkpoint at the end of that
  batch has the reason NoClients, whatever ops follow the NoClient op in the batch.
\<close>

theorem checkpoint_reason_priority:
  "getCheckpointReason cfg env s =
     specCheckpointReason (enable (checkpointHeuristics cfg))
       (rawMessagesSinceCheckpoint (documentCheckpointManager s))
       (maxMessages (checkpointHeuristics cfg))
       (now env - lastCheckpointTime (documentCheckpointManager s))
       (maxTime (checkpointHeuristics cfg))
   \<and> (let counted = s\<lparr>documentCheckpointManager :=
                         incrementRawMessageCounter
                           (updateCheckpointMessages msg (documentCheckpointManager s))\<rparr>;
           s' = createCheckpoint cfg env msg s
       in if noActiveClients (documentCheckpointManager s)
          then last (effects s') = CheckpointLog NoClients
          else (case getCheckpointReason cfg env counted of
                  None \<Rightarrow> effects s' = effects s @
                      [IdleTimerArmed (idleTime (checkpointHeuristics cfg)) (isDocumentCorrupt s)]
                | Some r \<Rightarrow> last (effects s') = CheckpointLog r))
   \<and> (handleNoClient cfg env operation s = (Returned, s1)
        \<longrightarrow> noActiveClients (documentCheckpointManager s1))
   \<and> (\<not> (case lastOffset s of None \<Rightarrow> False | Some offset \<Rightarrow> qm_offset msg \<le> offset)
        \<and> qm_boxcar msg = before @ SequencedOperation operation # after
        \<and> handleBoxcar cfg env msg before (s\<lparr>lastOffset := Some (qm_offset msg)\<rparr>)
            = (Returned, s2)
        \<and> op_type operation = NoClient
        \<and> sequenceNumber s2 < op_sequenceNumber operation
        \<and> lastProtocolHandlerSequenceNumber env s2 < op_sequenceNumber operation
        \<and> handler cfg env msg s = (Returned, s3)
        \<longrightarrow> last (effects s3) = CheckpointLog NoClients)"
proof -
  have c1: "getCheckpointReason cfg env s =
     specCheckpointReason (enable (checkpointHeuristics cfg))
       (rawMessagesSinceCheckpoint (documentCheckpointManager s))
       (maxMessages (checkpointHeuristics cfg))
       (now env - lastCheckpointTime (documentCheckpointManager s))
       (maxTime (checkpointHeuristics cfg))"
    by (simp add: getCheckpointReason_def specCheckpointReason_def Let_def)
  have c2: "let counted = s\<lparr>documentCheckpointManager :=
                         incrementRawMessageCounter
                           (updateCheckpointMessages msg (documentCheckpointManager s))\<rparr>;
           s' = createCheckpoint cfg env msg s
       in if noActiveClients (documentCheckpointManager s)
          then last (effects s') = CheckpointLog NoClients
          else (case getCheckpointReason cfg env counted of
                  None \<Rightarrow> effects s' = effects s @
                      [IdleTimerArmed (idleTime (checkpointHeuristics cfg)) (isDocumentCorrupt s)]
                | Some r \<Rightarrow> last (effects s') = CheckpointLog r)"
    by (simp add: createCheckpoint_def Let_def last_effects_prepareCheckpoint emit_def
        incrementRawMessageCounter_def updateCheckpointMessages_def setNoActiveClients_def
        split: option.splits)
  have c3: "handleNoClient cfg env operation s = (Returned, s1)
        \<longrightarrow> noActiveClients (documentCheckpointManager s1)"
    using handleNoClient_seen by blast
  have c4: "\<not> (case lastOffset s of None \<Rightarrow> False | Some offset \<Rightarrow> qm_offset msg \<le> offset)
        \<and> qm_boxcar msg = before @ SequencedOperation operation # after
        \<and> handleBoxcar cfg env msg before (s\<lparr>lastOffset := Some (qm_offset msg)\<rparr>)
            = (Returned, s2)
        \<and> op_type operation = NoClient
        \<and> sequenceNumber s2 < op_sequenceNumber operation
        \<and> lastProtocolHandlerSequenceNumber env s2 < op_sequenceNumber operation
        \<and> handler cfg env msg s = (Returned, s3)
        \<longrightarrow> last (effects s3) = CheckpointLog NoClients"
  proof (rule impI, elim conjE)
    assume "\<not> (case lastOffset s of None \<Rightarrow> False | Some offset \<Rightarrow> qm_offset msg \<le> offset)"
      and "qm_boxcar msg = before @ SequencedOperation operation # after"
      and "handleBoxcar cfg env msg before (s\<lparr>lastOffset := Some (qm_offset msg)\<rparr>)
             = (Returned, s2)"
      and "op_type operation = NoClient"
      and "sequenceNumber s2 < op_sequenceNumber operation"
      and "lastProtocolHandlerSequenceNumber env s2 < op_sequenceNumber operation"
      and "handler cfg env msg s = (Returned, s3)"
    then show "last (effects s3) = CheckpointLog NoClients"
      by (rule handler_NoClient)
  qed
  show ?thesis
    by (rule conjI [OF c1 conjI [OF c2 conjI [OF c3 c4]]])
qed

theorem checkpoint_reason_priority_witness:
  "getCheckpointReason exampleConfig (exampleEnv True) (exampleLambda 5 19) = Some EveryMessage
   \<and> fst (handleNoClient exampleConfig (exampleEnv True) (mkOp 20 20 20 NoClient)
            (exampleLambda 5 19)) = Returned
   \<and> noActiveClients (documentCheckpointManager
        (snd (handleNoClient exampleConfig (exampleEnv True) (mkOp 20 20 20 NoClient)
                (exampleLambda 5 19))))
   \<and> last (effects (createCheckpoint exampleConfig (exampleEnv True) (mkBatch 6 [])
        (snd (handleNoClient exampleConfig (exampleEnv True) (mkOp 20 20 20 NoClient)
                (exampleLambda 5 19))))) = CheckpointLog NoClients
   \<and> qm_boxcar mixedBatch = [SequencedOperation (mkOp 11 10 10 Operation)]
        @ SequencedOperation (mkOp 12 12 12 NoClient)
        # [SequencedOperation (mkOp 13 12 12 ClientJoin)]
   \<and> fst (handler exampleConfig (exampleEnv True) mixedBatch (exampleLambda 5 10)) = Returned
   \<and> sequenceNumber (snd (handler exampleConfig (exampleEnv True) mixedBatch
                             (exampleLambda 5 10))) = 13
   \<and> last (effects (snd (handler exampleConfig (exampleEnv True) mixedBatch
                            (exampleLambda 5 10)))) = CheckpointLog NoClients"
proof -
  let ?r = "handleNoClient exampleConfig (exampleEnv True) (mkOp 20 20 20 NoClient)
              (exampleLambda 5 19)"
  let ?init = "exampleLambda 5 10 :: (int, int) ScribeLambda"
  let ?b = "handleBoxcar exampleConfig (exampleEnv True) mixedBatch
              [SequencedOperation (mkOp 11 10 10 Operation)]
              (?init\<lparr>lastOffset := Some (qm_offset mixedBatch)\<rparr>)"
  let ?h = "handler exampleConfig (exampleEnv True) mixedBatch ?init"
  have f: "fst ?r = Returned"
    by code_simp
  then have e: "?r = (Returned, snd ?r)"
    by (metis prod.collapse)
  note c = checkpoint_reason_priority [where cfg = exampleConfig and env = "exampleEnv True"
      and s = "exampleLambda 5 19" and msg = "mkBatch 6 []"
      and operation = "mkOp 20 20 20 NoClient" and ?s1.0 = "snd ?r"]
  note c2 = checkpoint_reason_priority [where cfg = exampleConfig and env = "exampleEnv True"
      and s = "snd ?r" and msg = "mkBatch 6 []"]
  note c3 = checkpoint_reason_priority [where cfg = exampleConfig and env = "exampleEnv True"
      and s = ?init and msg = mixedBatch
      and before = "[SequencedOperation (mkOp 11 10 10 Operation)]"
      and operation = "mkOp 12 12 12 NoClient"
      and after = "[SequencedOperation (mkOp 13 12 12 ClientJoin)]"
      and ?s2.0 = "snd ?b" and ?s3.0 = "snd ?h"]
  have n: "noActiveClients (documentCheckpointManager (snd ?r))"
    using c [THEN conjunct2, THEN conjunct2, THEN conjunct1] e by (rule mp)
  have g: "getCheckpointReason exampleConfig (exampleEnv True) (exampleLambda 5 19)
             = Some EveryMessage"
    using c [THEN conjunct1] by (simp add: specCheckpointReason_def exampleConfig_def)
  have l: "last (effects (createCheckpoint exampleConfig (exampleEnv True) (mkBatch 6 [])
             (snd ?r))) = CheckpointLog NoClients"
    using c2 [THEN conjunct2, THEN conjunct1] n by (simp add: Let_def)
  have p1: "\<not> (case lastOffset ?init of None \<Rightarrow> False
                | Some offset \<Rightarrow> qm_offset mixedBatch \<le> offset)"
    by code_simp
  have p2: "qm_boxcar mixedBatch = [SequencedOperation (mkOp 11 10 10 Operation)]
        @ SequencedOperation (mkOp 12 12 12 NoClient)
        # [SequencedOperation (mkOp 13 12 12 ClientJoin)]"
    by (simp add: mixedBatch_def mkBatch_def)
  have "fst ?b = Returned" by code_simp
  then have p3: "?b = (Returned, snd ?b)" by (metis prod.collapse)
  have p4: "op_type (mkOp 12 12 12 NoClient) = NoClient" by (simp add: mkOp_def)
  have p5: "sequenceNumber (snd ?b) < op_sequenceNumber (mkOp 12 12 12 NoClient)"
    by code_simp
  have p6: "lastProtocolHandlerSequenceNumber (exampleEnv True) (snd ?b)
              < op_sequenceNumber (mkOp 12 12 12 NoClient)"
    by code_simp
  have hr: "fst ?h = Returned" by code_simp
  then have p7: "?h = (Returned, snd ?h)" by (metis prod.collapse)
  have sq: "sequenceNumber (snd ?h) = 13" by code_simp
  have k: "last (effects (snd ?h)) = CheckpointLog NoClients"
    by (rule mp [OF c3 [THEN conjunct2, THEN conjunct2, THEN conjunct2]
          conjI [OF p1 conjI [OF p2 conjI [OF p3 conjI [OF p4 conjI [OF p5
            conjI [OF p6 p7]]]]]]])
  show ?thesis using f n g l p2 hr sq k by simp
qed

subsection \<open>Client summaries\<close>

text \<open>
  Claim C3, as amended.  A Summarize op (not acked by deli) with a writer that is not
  external: when the protocol handler has advanced to the op's reference sequence number,
  the protocol head is behind the handler, \<open>writeClientSummary\<close> answers with
  \<open>status = true\<close> and the producer delivers both ops, the dispatch returns, its
  effects are, in this order, the call of the writer, a SummaryAck that carries the
  writer's message, and a Control op UpdateDSN with the op's sequence number,
  \<open>isClientSummary = true\<close> and \<open>clearCache = false\<close>; afterwards the protocol head and
  the last summary sequence number are the sequence number of the protocol handler.
\<close>

theorem client_summary_success:
  assumes "op_type operation = Summarize" and "\<not> op_deliAcked operation"
    and "\<not> isExternal env"
    and "processFromPending cfg env (op_referenceSequenceNumber operation) msg s = (Returned, s1)"
    and "protocolHead s1 < handlerSequenceNumber env (protocolHandler s1)"
    and "writeClientSummary env operation (lastClientSummaryHead s1)
           (generateScribeCheckpoint env s1 (lastOffset s1) (scrubUserDataInSummaries cfg))
           (pendingCheckpointMessages s1) (isEphemeralContainer cfg) = Some response"
    and "status response"
    and "delivers env (summaryAckOperation (message response))"
    and "delivers env (confirmationOperation (op_sequenceNumber operation) True False)"
  shows "\<exists>s'. dispatchOp cfg env msg operation s = (Returned, s')
     \<and> effects s' = effects s @
         [ClientSummaryCall operation (lastClientSummaryHead s1)
            (generateScribeCheckpoint env s1 (lastOffset s1) (scrubUserDataInSummaries cfg))
            (pendingCheckpointMessages s1) (isEphemeralContainer cfg),
          SendToDeli \<lparr>dsm_clientSequenceNumber = - 1, dsm_referenceSequenceNumber = - 1,
                      dsm_type = SummaryAck, dsm_data = SummaryData (message response)\<rparr>,
          SendToDeli \<lparr>dsm_clientSequenceNumber = - 1, dsm_referenceSequenceNumber = - 1,
                      dsm_type = Control,
                      dsm_data = ControlData
                        \<lparr>cm_type = UpdateDSN,
                         cm_durableSequenceNumber = op_sequenceNumber operation,
                         cm_isClientSummary = True, cm_clearCache = False\<rparr>\<rparr>]
     \<and> protocolHead s' = handlerSequenceNumber env (protocolHandler s')
     \<and> lastSummarySequenceNumber s' = Some (handlerSequenceNumber env (protocolHandler s'))"
proof -
  from processFromPending_Returned [OF assms(4)]
  obtain rest h where s1: "s1 = s\<lparr>pendingMessages := rest, protocolHandler := h\<rparr>" by blast
  then have e: "effects s1 = effects s" by simp
  show ?thesis
    using assms e
    by (simp add: dispatchOp_def handleSummarize_def clientSummary_def clientSummaryTry_def
        Let_def emit_def sendSummaryAck_def sendSummaryConfirmationMessage_def sendToDeli_def
        summaryAckOperation_def confirmationOperation_def updateProtocolHead_def
        updateLastSummarySequenceNumber_def)
qed

lemma summarize_advance:
  "processFromPending exampleConfig env (op_referenceSequenceNumber summarizeOp)
     (mkBatch 6 [summarizeOp]) summarizeState = (Returned, summarizeState)"
  by (simp add: summarizeState_def summarizeOp_def processFromPending_def example_defs)

theorem client_summary_success_witness:
  "fst (dispatchOp exampleConfig (exampleEnv True) (mkBatch 6 [summarizeOp]) summarizeOp
          summarizeState) = Returned
   \<and> map (\<lambda>e. case e of SendToDeli m \<Rightarrow> Some (dsm_type m, dsm_data m) | _ \<Rightarrow> None)
        (effects (snd (dispatchOp exampleConfig (exampleEnv True) (mkBatch 6 [summarizeOp])
                         summarizeOp summarizeState)))
      = [None, Some (SummaryAck, SummaryData (exampleAck 11)),
         Some (Control, ControlData \<lparr>cm_type = UpdateDSN, cm_durableSequenceNumber = 11,
                 cm_isClientSummary = True, cm_clearCache = False\<rparr>)]
   \<and> protocolHead (snd (dispatchOp exampleConfig (exampleEnv True) (mkBatch 6 [summarizeOp])
                          summarizeOp summarizeState)) = 10
   \<and> lastSummarySequenceNumber
        (snd (dispatchOp exampleConfig (exampleEnv True) (mkBatch 6 [summarizeOp])
                summarizeOp summarizeState)) = Some 10"
proof -
  let ?d = "dispatchOp exampleConfig (exampleEnv True) (mkBatch 6 [summarizeOp]) summarizeOp
              summarizeState"
  have t: "op_type summarizeOp = Summarize" and d: "\<not> op_deliAcked summarizeOp"
    by (simp_all add: summarizeOp_def mkOp_def)
  have x: "\<not> isExternal (exampleEnv True)" by (simp add: exampleEnv_def)
  have h: "protocolHead summarizeState
             < handlerSequenceNumber (exampleEnv True) (protocolHandler summarizeState)"
    by (simp add: summarizeState_def example_defs)
  have w: "writeClientSummary (exampleEnv True) summarizeOp (lastClientSummaryHead summarizeState)
             (generateScribeCheckpoint (exampleEnv True) summarizeState
                (lastOffset summarizeState) (scrubUserDataInSummaries exampleConfig))
             (pendingCheckpointMessages summarizeState) (isEphemeralContainer exampleConfig)
           = Some \<lparr>status = True, message = exampleAck 11\<rparr>"
    by (simp add: exampleEnv_def summarizeOp_def mkOp_def)
  have st: "status \<lparr>status = True, message = exampleAck 11\<rparr>" by simp
  have p: "delivers (exampleEnv True)
             (summaryAckOperation (message \<lparr>status = True, message = exampleAck 11\<rparr>))"
    "delivers (exampleEnv True)
       (confirmationOperation (op_sequenceNumber summarizeOp) True False)"
    by (simp_all add: delivers_def exampleEnv_def)
  have e: "effects summarizeState = []" "handlerSequenceNumber (exampleEnv True) = (\<lambda>h. h)"
    by (simp_all add: summarizeState_def example_defs)
  have q: "op_sequenceNumber summarizeOp = 11" by (simp add: summarizeOp_def mkOp_def)
  have ph: "protocolHandler (snd ?d) = 10" by code_simp
  from client_summary_success [OF t d x summarize_advance h w st p]
  obtain s' where r: "?d = (Returned, s')"
    and "effects s' = effects summarizeState @
         [ClientSummaryCall summarizeOp (lastClientSummaryHead summarizeState)
            (generateScribeCheckpoint (exampleEnv True) summarizeState
               (lastOffset summarizeState) (scrubUserDataInSummaries exampleConfig))
            (pendingCheckpointMessages summarizeState) (isEphemeralContainer exampleConfig),
          SendToDeli \<lparr>dsm_clientSequenceNumber = - 1, dsm_referenceSequenceNumber = - 1,
                      dsm_type = SummaryAck,
                      dsm_data = SummaryData (message \<lparr>status = True, message = exampleAck 11\<rparr>)\<rparr>,
          SendToDeli \<lparr>dsm_clientSequenceNumber = - 1, dsm_referenceSequenceNumber = - 1,
                      dsm_type = Control,
                      dsm_data = ControlData
                        \<lparr>cm_type = UpdateDSN,
                         cm_durableSequenceNumber = op_sequenceNumber summarizeOp,
                         cm_isClientSummary = True, cm_clearCache = False\<rparr>\<rparr>]"
    and "protocolHead s' = handlerSequenceNumber (exampleEnv True) (protocolHandler s')"
    and "lastSummarySequenceNumber s'
           = Some (handlerSequenceNumber (exampleEnv True) (protocolHandler s'))"
    by blast
  then show ?thesis
    using e q ph by simp
qed

text \<open>The claim as it was stated, for every client summary that succeeds, fails when the
  producer does not deliver: the sends are inside the \<open>try\<close>, so with no producer the
  writer's \<open>status = true\<close> is followed by the revert and the error is thrown again; no
  SummaryAck and no control op are sent and the protocol head stays.\<close>

theorem client_summary_success_counterexample:
  "op_type summarizeOp = Summarize \<and> \<not> op_deliAcked summarizeOp
   \<and> \<not> isExternal noProducerEnv
   \<and> map status (concat (map (\<lambda>e. case e of
          ClientSummaryCall operation h cp pcm eph \<Rightarrow>
            (case writeClientSummary noProducerEnv operation h cp pcm eph of
               None \<Rightarrow> [] | Some response \<Rightarrow> [response])
        | _ \<Rightarrow> [])
        (effects (snd (handler exampleConfig noProducerEnv (mkBatch 6 [summarizeOp])
                         (exampleLambda 5 10)))))) = [True]
   \<and> fst (handler exampleConfig noProducerEnv (mkBatch 6 [summarizeOp]) (exampleLambda 5 10))
       = Threw ProducerError
   \<and> sentToDeli (effects (snd (handler exampleConfig noProducerEnv (mkBatch 6 [summarizeOp])
                                  (exampleLambda 5 10)))) = []
   \<and> protocolHandler (snd (handler exampleConfig noProducerEnv (mkBatch 6 [summarizeOp])
                              (exampleLambda 5 10))) = 10
   \<and> protocolHead (snd (handler exampleConfig noProducerEnv (mkBatch 6 [summarizeOp])
                           (exampleLambda 5 10))) = 0
   \<and> lastSummarySequenceNumber (snd (handler exampleConfig noProducerEnv
        (mkBatch 6 [summarizeOp]) (exampleLambda 5 10))) = None"
  by code_simp




subsection \<open>A gap in the sequence numbers\<close>

lemma contiguousFrom_append:
  "contiguousFrom n (xs @ ys)
     = (contiguousFrom n xs \<and> contiguousFrom (n + int (length xs)) ys)"
  by (induction xs arbitrary: n) (auto simp: algebra_simps)

lemma contiguousFrom_last:
  "contiguousFrom n xs \<Longrightarrow> xs \<noteq> [] \<Longrightarrow> op_sequenceNumber (last xs) = n + int (length xs)"
  by (induction xs arbitrary: n) (auto simp: algebra_simps)

lemma contiguousFrom_upto:
  "contiguousFrom n xs = (map op_sequenceNumber xs = [n + 1..n + int (length xs)])"
proof (induction xs arbitrary: n)
  case Nil
  then show ?case by simp
next
  case (Cons m ms)
  have "[n + 1..n + int (length (m # ms))] = (n + 1) # [n + 1 + 1..n + 1 + int (length ms)]"
    by (subst upto_rec1) (simp_all add: algebra_simps)
  with Cons [of "n + 1"] show ?case by auto
qed

lemma lastKnown_contiguous:
  assumes "contiguousFrom (handlerSequenceNumber env (protocolHandler s)) (pendingMessages s)"
  shows "lastProtocolHandlerSequenceNumber env s
     = handlerSequenceNumber env (protocolHandler s) + int (length (pendingMessages s))"
proof (cases "pendingMessages s")
  case Nil
  then show ?thesis by (simp add: lastProtocolHandlerSequenceNumber_def)
next
  case (Cons m ms)
  then have "pendingMessages s \<noteq> []" by simp
  from contiguousFrom_last [OF assms this] Cons show ?thesis
    by (simp add: lastProtocolHandlerSequenceNumber_def)
qed

lemma handleOp_skips:
  "op_sequenceNumber operation \<le> sequenceNumber s
     \<or> op_sequenceNumber operation \<le> lastProtocolHandlerSequenceNumber env s
     \<Longrightarrow> handleOp cfg env msg operation s = (Returned, s)"
  by (auto simp: handleOp_def)

text \<open>
  Claim C5, as amended.  The handler first skips an op whose sequence number is not above
  the lambda's \<open>sequenceNumber\<close> or not above the last known sequence number (the back of
  the pending buffer, or the protocol handler's number when the buffer is empty).  For an
  op that passes both filters and is not the successor of the last known number: without
  a pending message reader the handler throws the invalid-sequence-number error and the
  lambda is unchanged; with a reader it requests the range from the last known number
  plus one to the op's number minus one, appends the answer to the pending buffer and
  then the op itself; when the buffer continued the protocol handler's number and the
  reader answers with exactly the requested sequence numbers, the buffer with the op
  still does.
\<close>

theorem sequence_gap:
  assumes "sequenceNumber s < op_sequenceNumber operation"
    and "lastProtocolHandlerSequenceNumber env s < op_sequenceNumber operation"
    and "op_sequenceNumber operation \<noteq> lastProtocolHandlerSequenceNumber env s + 1"
  shows "(pendingMessageReader env = None \<longrightarrow>
            handleOp cfg env msg operation s =
              (Threw (InvalidSequenceNumber (op_sequenceNumber operation)
                        (lastProtocolHandlerSequenceNumber env s)), s))
     \<and> (\<forall>readMessages additional.
           pendingMessageReader env = Some readMessages
           \<and> readMessages (lastProtocolHandlerSequenceNumber env s + 1)
                (op_sequenceNumber operation - 1) = Some additional \<longrightarrow>
           (\<exists>s1. fillGap env operation s = (Returned, s1)
              \<and> effects s1 = effects s @
                   [ReadMessages (lastProtocolHandlerSequenceNumber env s + 1)
                      (op_sequenceNumber operation - 1)]
              \<and> pendingMessages (pushOp cfg operation s1)
                   = pendingMessages s @ additional @ [operation]
              \<and> handleOp cfg env msg operation s =
                   (case acceptOp cfg env msg operation s1 of
                      (Threw e, s2) \<Rightarrow> (Threw e, s2)
                    | (Returned, s2) \<Rightarrow> dispatchOp cfg env msg operation s2)
              \<and> (contiguousFrom (handlerSequenceNumber env (protocolHandler s))
                     (pendingMessages s)
                   \<and> map op_sequenceNumber additional
                       = [lastProtocolHandlerSequenceNumber env s + 1
                          ..op_sequenceNumber operation - 1]
                   \<longrightarrow> contiguousFrom (handlerSequenceNumber env (protocolHandler s))
                         (pendingMessages s @ additional @ [operation]))))"
proof (intro conjI allI impI)
  assume "pendingMessageReader env = None"
  with assms show "handleOp cfg env msg operation s =
      (Threw (InvalidSequenceNumber (op_sequenceNumber operation)
                (lastProtocolHandlerSequenceNumber env s)), s)"
    by (simp add: handleOp_def fillGap_def Let_def)
next
  fix readMessages additional
  let ?lk = "lastProtocolHandlerSequenceNumber env s"
  let ?h = "handlerSequenceNumber env (protocolHandler s)"
  assume r: "pendingMessageReader env = Some readMessages
     \<and> readMessages (?lk + 1) (op_sequenceNumber operation - 1) = Some additional"
  let ?s1 = "(emit (ReadMessages (?lk + 1) (op_sequenceNumber operation - 1)) s)
       \<lparr>pendingMessages := pendingMessages s @ additional\<rparr>"
  have f: "fillGap env operation s = (Returned, ?s1)"
    using assms r by (simp add: fillGap_def Let_def emit_def)
  have c: "contiguousFrom ?h (pendingMessages s @ additional @ [operation])"
    if a: "contiguousFrom ?h (pendingMessages s)"
      and b: "map op_sequenceNumber additional = [?lk + 1..op_sequenceNumber operation - 1]"
  proof -
    have lk: "?lk = ?h + int (length (pendingMessages s))"
      by (rule lastKnown_contiguous [OF a])
    have "length (map op_sequenceNumber additional)
            = length [?lk + 1..op_sequenceNumber operation - 1]"
      using b by simp
    then have len: "int (length additional) = op_sequenceNumber operation - 1 - ?lk"
      using assms by simp
    then have "contiguousFrom ?lk additional"
      using b by (simp add: contiguousFrom_upto)
    then show ?thesis
      using a lk len by (simp add: contiguousFrom_append)
  qed
  show "\<exists>s1. fillGap env operation s = (Returned, s1)
              \<and> effects s1 = effects s @
                   [ReadMessages (lastProtocolHandlerSequenceNumber env s + 1)
                      (op_sequenceNumber operation - 1)]
              \<and> pendingMessages (pushOp cfg operation s1)
                   = pendingMessages s @ additional @ [operation]
              \<and> handleOp cfg env msg operation s =
                   (case acceptOp cfg env msg operation s1 of
                      (Threw e, s2) \<Rightarrow> (Threw e, s2)
                    | (Returned, s2) \<Rightarrow> dispatchOp cfg env msg operation s2)
              \<and> (contiguousFrom (handlerSequenceNumber env (protocolHandler s))
                     (pendingMessages s)
                   \<and> map op_sequenceNumber additional
                       = [lastProtocolHandlerSequenceNumber env s + 1
                          ..op_sequenceNumber operation - 1]
                   \<longrightarrow> contiguousFrom (handlerSequenceNumber env (protocolHandler s))
                         (pendingMessages s @ additional @ [operation]))"
    using f c assms by (intro exI [of _ ?s1]) (simp add: emit_def pushOp_def handleOp_def Let_def)
qed

theorem sequence_gap_witness:
  "handleOp exampleConfig (exampleEnv True) (mkBatch 6 [mkOp 7 4 6 Operation])
      (mkOp 7 4 6 Operation) (exampleLambda 5 4)
     = (Threw (InvalidSequenceNumber 7 4), exampleLambda 5 4)
   \<and> map op_sequenceNumber
        (pendingMessages (pushOp exampleConfig (mkOp 7 4 6 Operation)
           (snd (fillGap readerEnv (mkOp 7 4 6 Operation) (exampleLambda 5 4))))) = [5, 6, 7]
   \<and> contiguousFrom 4
        (pendingMessages (pushOp exampleConfig (mkOp 7 4 6 Operation)
           (snd (fillGap readerEnv (mkOp 7 4 6 Operation) (exampleLambda 5 4)))))
   \<and> effects (snd (fillGap readerEnv (mkOp 7 4 6 Operation) (exampleLambda 5 4)))
       = [ReadMessages 5 6]"
proof -
  let ?op = "mkOp 7 4 6 Operation"
  let ?s = "exampleLambda 5 4 :: (int, int) ScribeLambda"
  have k: "lastProtocolHandlerSequenceNumber (exampleEnv True) ?s = 4"
    "lastProtocolHandlerSequenceNumber readerEnv ?s = 4"
    by (simp_all add: lastProtocolHandlerSequenceNumber_def readerEnv_def example_defs)
  have a: "sequenceNumber ?s < op_sequenceNumber ?op"
    by (simp add: example_defs)
  have b: "lastProtocolHandlerSequenceNumber (exampleEnv True) ?s < op_sequenceNumber ?op"
    "lastProtocolHandlerSequenceNumber readerEnv ?s < op_sequenceNumber ?op"
    by (simp_all add: k) (simp_all add: mkOp_def)
  have c: "op_sequenceNumber ?op \<noteq> lastProtocolHandlerSequenceNumber (exampleEnv True) ?s + 1"
    "op_sequenceNumber ?op \<noteq> lastProtocolHandlerSequenceNumber readerEnv ?s + 1"
    by (simp_all add: k) (simp_all add: mkOp_def)
  have n: "pendingMessageReader (exampleEnv True) = None"
    by (simp add: exampleEnv_def)
  have first: "handleOp exampleConfig (exampleEnv True) (mkBatch 6 [?op]) ?op ?s
      = (Threw (InvalidSequenceNumber 7 4), ?s)"
    using sequence_gap [OF a b(1) c(1), of exampleConfig "mkBatch 6 [?op]"] n k
    by (simp add: mkOp_def)
  have rest: "map op_sequenceNumber
        (pendingMessages (pushOp exampleConfig ?op (snd (fillGap readerEnv ?op ?s)))) = [5, 6, 7]
   \<and> contiguousFrom 4
        (pendingMessages (pushOp exampleConfig ?op (snd (fillGap readerEnv ?op ?s))))
   \<and> effects (snd (fillGap readerEnv ?op ?s)) = [ReadMessages 5 6]"
    using sequence_gap [OF a b(2) c(2), of exampleConfig "mkBatch 6 [?op]"] k
    by (simp add: readerEnv_def example_defs fillGap_def pushOp_def
        lastProtocolHandlerSequenceNumber_def emit_def)
  show ?thesis using first rest by simp
qed

text \<open>The claim as it was stated, for every op that is not the successor of the last
  known number, fails: an op at the last known number, with no reader, is skipped and the
  handler returns.\<close>

theorem sequence_gap_counterexample:
  "op_sequenceNumber (mkOp 10 10 9 Operation)
     \<noteq> lastProtocolHandlerSequenceNumber (exampleEnv True) (exampleLambda 5 10) + 1
   \<and> pendingMessageReader (exampleEnv True) = None
   \<and> handleOp exampleConfig (exampleEnv True) (mkBatch 6 [mkOp 10 10 9 Operation])
       (mkOp 10 10 9 Operation) (exampleLambda 5 10) = (Returned, exampleLambda 5 10)
   \<and> fst (handler exampleConfig (exampleEnv True) (mkBatch 6 [mkOp 10 10 9 Operation])
            (exampleLambda 5 10)) = Returned"
  by (simp add: example_defs handler_defs checkpoint_defs)

subsection \<open>The invariant of the checkpoint writer\<close>

lemma insertedSoFar_append [simp]:
  "insertedSoFar (es @ fs) = insertedSoFar es @ insertedSoFar fs"
  by (simp add: insertedSoFar_def)

lemma insertedSoFar_simps [simp]:
  "insertedSoFar [] = []"
  "insertedSoFar [KafkaCheckpoint m r] = []"
  "insertedSoFar [ManagerWrite cp h ins a b c] = []"
  "insertedSoFar [ManagerDelete h d] = []"
  "insertedSoFar [SendToDeli x] = []"
  "insertedSoFar [ClientSummaryCall o1 l1 c1 p1 e1] = []"
  "insertedSoFar [ServiceSummaryCall o2 h2 c2 p2] = []"
  "insertedSoFar [ReadMessages f t] = []"
  "insertedSoFar [IdleTimerArmed i k] = []"
  "insertedSoFar [CheckpointLog rs] = []"
  "insertedSoFar [Settled DeleteWrite ok] = []"
  "insertedSoFar [Settled (CheckpointWrite ins) ok] = (if ok then ins else [])"
  by (simp_all add: insertedSoFar_def)

lemma sorted_filter_seq:
  "sorted_wrt (<) (map op_sequenceNumber xs)
     \<Longrightarrow> sorted_wrt (<) (map op_sequenceNumber (filter P xs))"
  by (simp add: sorted_wrt_map sorted_wrt_filter)

lemma checkpointCore_inv:
  "checkpointInv s \<Longrightarrow> checkpointInv (checkpointCore cfg cp m cc skip s)"
  by (auto simp: checkpointInv_def checkpointCore_def emit_def Let_def sorted_filter_seq
      writeInserts_def)

lemma checkpointInv_frame [simp]:
  "checkpointInv (s\<lparr>documentCheckpointManager := d\<rparr>) = checkpointInv s"
  "checkpointInv (s\<lparr>lastOffset := lo\<rparr>) = checkpointInv s"
  "checkpointInv (s\<lparr>isDocumentCorrupt := ic\<rparr>) = checkpointInv s"
  "checkpointInv (s\<lparr>pendingMessages := pm\<rparr>) = checkpointInv s"
  "checkpointInv (s\<lparr>protocolHandler := ph\<rparr>) = checkpointInv s"
  "checkpointInv (s\<lparr>protocolHead := hd0\<rparr>) = checkpointInv s"
  "checkpointInv (s\<lparr>clearCache := cc\<rparr>) = checkpointInv s"
  "checkpointInv (s\<lparr>closed := cl\<rparr>) = checkpointInv s"
  "checkpointInv (s\<lparr>globalCheckpointOnly := g\<rparr>) = checkpointInv s"
  "checkpointInv (s\<lparr>lastClientSummaryHead := lh\<rparr>) = checkpointInv s"
  "checkpointInv (s\<lparr>lastSummarySequenceNumber := ls\<rparr>) = checkpointInv s"
  "checkpointInv (s\<lparr>validParentSummaries := vp\<rparr>) = checkpointInv s"
  "checkpointInv (s\<lparr>pendingCheckpointScribe := ps\<rparr>) = checkpointInv s"
  "checkpointInv (s\<lparr>pendingCheckpointOffset := po\<rparr>) = checkpointInv s"
  by (simp_all add: checkpointInv_def)

lemma checkpointInv_emit [simp]:
  "insertedSoFar [e] = [] \<Longrightarrow> checkpointInv (emit e s) = checkpointInv s"
  by (simp add: checkpointInv_def emit_def)

lemma prepareCheckpoint_inv:
  "checkpointInv s \<Longrightarrow> checkpointInv (prepareCheckpoint cfg env m r skip s)"
  by (simp add: prepareCheckpoint_def Let_def checkpointCore_inv)

lemma markDocumentAsCorrupt_inv:
  "checkpointInv s \<Longrightarrow> checkpointInv (markDocumentAsCorrupt cfg env m s)"
  by (simp add: markDocumentAsCorrupt_def Let_def prepareCheckpoint_inv)

lemma idleTimeCheckpoint_inv:
  "checkpointInv s \<Longrightarrow> checkpointInv (idleTimeCheckpoint cfg env m s)"
  by (simp add: idleTimeCheckpoint_def Let_def checkpointCore_inv split: option.splits)

lemma processFromPending_inv:
  "processFromPending cfg env target m s = (out, s') \<Longrightarrow> checkpointInv s \<Longrightarrow> checkpointInv s'"
  by (auto simp: processFromPending_def Let_def markDocumentAsCorrupt_inv
      split: prod.splits if_splits)

lemma clientSummary_inv:
  "clientSummary cfg env operation ps po s = (out, s') \<Longrightarrow> checkpointInv s \<Longrightarrow> checkpointInv s'"
  by (auto simp: clientSummary_def clientSummaryTry_def sendToDeli_def Let_def sendSummaryAck_def sendSummaryNack_def
      sendSummaryConfirmationMessage_def updateProtocolHead_def
      updateLastSummarySequenceNumber_def revertProtocolState_def
      split: option.splits if_splits prod.splits Outcome.splits)

lemma handleSummarize_inv:
  "handleSummarize cfg env m operation s = (out, s') \<Longrightarrow> checkpointInv s \<Longrightarrow> checkpointInv s'"
  by (auto simp: handleSummarize_def Let_def
      split: prod.splits Outcome.splits if_splits
      dest: processFromPending_inv clientSummary_inv)

lemma handleNoClient_inv:
  "handleNoClient cfg env operation s = (out, s') \<Longrightarrow> checkpointInv s \<Longrightarrow> checkpointInv s'"
  by (auto simp: handleNoClient_def sendToDeli_def Let_def sendSummaryConfirmationMessage_def
      updateLastSummarySequenceNumber_def updateValidParentSummaries_def setNoActiveClients_def
      split: option.splits if_splits prod.splits Outcome.splits)

lemma handleSummaryAck_inv:
  "handleSummaryAck env operation s = (out, s') \<Longrightarrow> checkpointInv s \<Longrightarrow> checkpointInv s'"
  by (auto simp: handleSummaryAck_def Let_def updateProtocolHead_def
      updateLastSummarySequenceNumber_def split: option.splits if_splits)

lemma dispatchOp_inv:
  "dispatchOp cfg env m operation s = (out, s') \<Longrightarrow> checkpointInv s \<Longrightarrow> checkpointInv s'"
  by (auto simp: dispatchOp_def split: if_splits
      dest: handleSummarize_inv handleNoClient_inv handleSummaryAck_inv)

lemma fillGap_inv:
  "fillGap env operation s = (out, s') \<Longrightarrow> checkpointInv s \<Longrightarrow> checkpointInv s'"
  by (auto simp: fillGap_def Let_def split: option.splits if_splits)

lemma fillGap_sequenceNumber:
  "fillGap env operation s = (out, s') \<Longrightarrow> sequenceNumber s' = sequenceNumber s"
  by (auto simp: fillGap_def Let_def emit_def split: option.splits if_splits)

lemma pushOp_inv:
  "checkpointInv s \<Longrightarrow> sequenceNumber s < op_sequenceNumber operation
     \<Longrightarrow> checkpointInv (pushOp cfg operation s)"
  by (fastforce simp: checkpointInv_def pushOp_def Let_def sorted_wrt_append)

lemma acceptOp_inv:
  "acceptOp cfg env m operation s = (out, s') \<Longrightarrow> checkpointInv s
     \<Longrightarrow> sequenceNumber s < op_sequenceNumber operation \<Longrightarrow> checkpointInv s'"
  by (auto simp: acceptOp_def Let_def pushOp_inv
      split: prod.splits Outcome.splits if_splits dest: processFromPending_inv)

lemma handleOp_inv:
  assumes "handleOp cfg env m operation s = (out, s')" and "checkpointInv s"
  shows "checkpointInv s'"
proof (cases "op_sequenceNumber operation \<le> sequenceNumber s
    \<or> op_sequenceNumber operation \<le> lastProtocolHandlerSequenceNumber env s")
  case True
  with assms show ?thesis by (auto simp: handleOp_def split: if_splits)
next
  case False
  obtain o1 s1 where f: "fillGap env operation s = (o1, s1)" by (cases "fillGap env operation s")
  have i1: "checkpointInv s1" by (rule fillGap_inv [OF f assms(2)])
  have q1: "sequenceNumber s1 < op_sequenceNumber operation"
    using fillGap_sequenceNumber [OF f] False by simp
  obtain o2 s2 where a: "acceptOp cfg env m operation s1 = (o2, s2)"
    by (cases "acceptOp cfg env m operation s1")
  have i2: "checkpointInv s2" by (rule acceptOp_inv [OF a i1 q1])
  show ?thesis
    using assms(1) False f a i1 i2
    by (auto simp: handleOp_def split: Outcome.splits dest: dispatchOp_inv)
qed

lemma handleBoxcar_inv:
  "handleBoxcar cfg env m bs s = (out, s') \<Longrightarrow> checkpointInv s \<Longrightarrow> checkpointInv s'"
proof (induction cfg env m bs s rule: handleBoxcar.induct)
  case (1 cfg env msg s)
  then show ?case by simp
next
  case (2 cfg env msg rest s)
  then show ?case by simp
next
  case (3 cfg env msg operation rest s)
  obtain o1 s1 where h: "handleOp cfg env msg operation s = (o1, s1)"
    by (cases "handleOp cfg env msg operation s")
  have i1: "checkpointInv s1" by (rule handleOp_inv [OF h "3.prems"(2)])
  show ?case
  proof (cases o1)
    case Returned
    with 3 h i1 show ?thesis by simp
  next
    case (Threw e)
    with "3.prems" h i1 show ?thesis by simp
  qed
qed

lemma createCheckpoint_inv:
  "checkpointInv s \<Longrightarrow> checkpointInv (createCheckpoint cfg env m s)"
  by (simp add: createCheckpoint_def Let_def prepareCheckpoint_inv split: option.splits)

lemma handler_inv:
  "handler cfg env m s = (out, s') \<Longrightarrow> checkpointInv s \<Longrightarrow> checkpointInv s'"
  by (auto simp: handler_def Let_def createCheckpoint_inv
      split: if_splits prod.splits Outcome.splits dest: handleBoxcar_inv)

lemma sorted_last_max:
  "sorted_wrt (<) (map op_sequenceNumber xs) \<Longrightarrow> m \<in> set xs
     \<Longrightarrow> op_sequenceNumber m \<le> op_sequenceNumber (last xs)"
  by (induction xs) (auto simp: less_imp_le)

lemma sorted_dropWhile_seq:
  "sorted_wrt (<) (map op_sequenceNumber xs)
     \<Longrightarrow> sorted_wrt (<) (map op_sequenceNumber (dropWhile P xs))"
  by (induction xs) auto

lemma dropWhile_above:
  "sorted_wrt (<) (map op_sequenceNumber xs)
     \<Longrightarrow> m \<in> set (dropWhile (\<lambda>x. op_sequenceNumber x \<le> c) xs) \<Longrightarrow> c < op_sequenceNumber m"
  by (induction xs) (auto split: if_splits)

lemma checkpointThen_inv:
  "checkpointInv s \<Longrightarrow> inflight s = [] \<Longrightarrow> checkpointInv (checkpointThen cfg w failed s)"
proof -
  assume a: "checkpointInv s" and b: "inflight s = []"
  have c: "checkpointInv (s\<lparr>pendingP := x\<rparr>)" for x
    using a b by (simp add: checkpointInv_def)
  show ?thesis
    by (simp add: checkpointThen_def Let_def c checkpointCore_inv split: option.splits)
qed

lemma writeCheckpointDone_inv:
  assumes "checkpointInv s" and "inflight s = [w]" and "w_kind w = CheckpointWrite inserts"
  shows "checkpointInv
           (writeCheckpointDone cfg inserts
              (emit (Settled (CheckpointWrite inserts) True) (s\<lparr>inflight := []\<rparr>)))"
proof (cases "inserts = []")
  case True
  with assms show ?thesis
    by (simp add: writeCheckpointDone_def checkpointInv_def emit_def)
next
  case False
  have w: "writeInserts w = inserts" using assms(3) by (simp add: writeInserts_def)
  have srt: "sorted_wrt (<) (map op_sequenceNumber inserts)"
    and above: "\<forall>m \<in> set inserts. lastCheckpointInsertedNumber s < op_sequenceNumber m"
    using assms(1,2) w by (auto simp: checkpointInv_def)
  have lastIn: "last inserts \<in> set inserts" using False by simp
  have old: "\<forall>m \<in> set (insertedSoFar (effects s)).
      op_sequenceNumber m \<le> op_sequenceNumber (last inserts)"
    using assms(1) above lastIn by (fastforce simp: checkpointInv_def)
  have new: "\<forall>m \<in> set inserts. op_sequenceNumber m \<le> op_sequenceNumber (last inserts)"
    using sorted_last_max [OF srt] by blast
  have buf: "sorted_wrt (<) (map op_sequenceNumber (pendingCheckpointMessages s))"
    "\<forall>m \<in> set (pendingCheckpointMessages s). op_sequenceNumber m \<le> sequenceNumber s"
    using assms(1) by (auto simp: checkpointInv_def)
  let ?c = "max (protocolHead s)
              (op_sequenceNumber (last inserts) - maxPendingCheckpointMessagesLength cfg)"
  let ?rest = "dropWhile (\<lambda>m. op_sequenceNumber m \<le> ?c) (pendingCheckpointMessages s)"
  have sub: "\<forall>m \<in> set ?rest. op_sequenceNumber m \<le> sequenceNumber s"
    using buf(2) by (meson set_dropWhileD)
  have srt': "sorted_wrt (<) (map op_sequenceNumber ?rest)"
    by (rule sorted_dropWhile_seq [OF buf(1)])
  have eq: "writeCheckpointDone cfg inserts
              (emit (Settled (CheckpointWrite inserts) True) (s\<lparr>inflight := []\<rparr>))
        = s\<lparr>inflight := [], effects := effects s @ [Settled (CheckpointWrite inserts) True],
            lastCheckpointInsertedNumber := op_sequenceNumber (last inserts),
            pendingCheckpointMessages := ?rest\<rparr>"
    using False by (simp add: writeCheckpointDone_def emit_def Let_def)
  show ?thesis
    unfolding eq checkpointInv_def
    using old new sub srt' by (simp add: ball_Un)
qed

lemma settled_inv:
  fixes s :: "('p, 'q) ScribeLambda"
  assumes "checkpointInv s" and "inflight s = [w]" and "w_kind w = k" and "k = DeleteWrite \<or> \<not> ok"
  shows "checkpointInv (emit (Settled k ok) (s\<lparr>inflight := []\<rparr>))"
proof -
  have "insertedSoFar ([Settled k ok] :: 'q Effect list) = []"
    using assms(4) by (cases k) auto
  moreover have "checkpointInv (s\<lparr>inflight := []\<rparr>)"
    using assms(1) by (simp add: checkpointInv_def)
  ultimately show ?thesis by simp
qed

lemma settle_inv:
  assumes "checkpointInv s"
  shows "checkpointInv (settle cfg ok s)"
proof (cases "inflight s")
  case Nil
  with assms show ?thesis by (simp add: settle_def)
next
  case (Cons w ws)
  have ws: "ws = []" using assms Cons by (simp add: checkpointInv_def)
  then have one: "inflight s = [w]" using Cons by simp
  let ?e = "emit (Settled (w_kind w) ok) (s\<lparr>inflight := []\<rparr>)"
  have e0: "inflight ?e = []" by (simp add: emit_def)
  show ?thesis
  proof (cases "w_kind w")
    case DeleteWrite
    have i: "checkpointInv ?e"
      by (rule settled_inv [OF assms one refl]) (simp add: DeleteWrite)
    have "settle cfg ok s = (if ok then checkpointThen cfg w False ?e else ?e)"
      using one DeleteWrite by (simp add: settle_def Let_def)
    then show ?thesis using i e0 by (cases ok) (simp_all add: checkpointThen_inv)
  next
    case (CheckpointWrite inserts)
    show ?thesis
    proof (cases ok)
      case True
      let ?d = "writeCheckpointDone cfg inserts
              (emit (Settled (CheckpointWrite inserts) True) (s\<lparr>inflight := []\<rparr>))"
      have i: "checkpointInv ?d"
        by (rule writeCheckpointDone_inv [OF assms one CheckpointWrite])
      have d0: "inflight ?d = []"
        by (simp add: writeCheckpointDone_def emit_def Let_def)
      have "settle cfg ok s = checkpointThen cfg w False ?d"
        using one CheckpointWrite True by (simp add: settle_def Let_def)
      then show ?thesis using i d0 by (simp add: checkpointThen_inv)
    next
      case False
      have i: "checkpointInv ?e"
        by (rule settled_inv [OF assms one refl]) (simp add: False)
      have "settle cfg ok s = checkpointThen cfg w True ?e"
        using one CheckpointWrite False by (simp add: settle_def Let_def)
      then show ?thesis using i e0 by (simp add: checkpointThen_inv)
    qed
  qed
qed

lemma newScribeLambda_inv: "checkpointInv (newScribeLambda cfg scribe h0 head0 messages t0)"
  by (simp add: checkpointInv_def newScribeLambda_def setStateFromCheckpoint_def)

lemma reachableFrom_inv:
  "reachableFrom cfg s0 s \<Longrightarrow> checkpointInv s0 \<Longrightarrow> checkpointInv s"
proof (induction rule: reachableFrom.induct)
  case start
  then show ?case .
next
  case (handlerStep s env msg out s')
  show ?case
    by (rule handler_inv [OF handlerStep.hyps(2)]) (rule handlerStep.IH [OF handlerStep.prems])
next
  case (settleStep s ok)
  show ?case by (rule settle_inv) (rule settleStep.IH [OF settleStep.prems])
next
  case (idleStep s env m)
  show ?case by (rule idleTimeCheckpoint_inv) (rule idleStep.IH [OF idleStep.prems])
next
  case (prepareStep s env msg r skip)
  show ?case by (rule prepareCheckpoint_inv) (rule prepareStep.IH [OF prepareStep.prems])
next
  case (closeStep s)
  from closeStep.IH [OF closeStep.prems] show ?case by (simp add: close_def)
qed

lemma reachable_inv:
  assumes "reachable cfg s"
  shows "checkpointInv s"
proof -
  from assms obtain scribe h0 head0 messages t0
    where "reachableFrom cfg (newScribeLambda cfg scribe h0 head0 messages t0) s"
    unfolding reachable_def by blast
  then show ?thesis by (rule reachableFrom_inv) (rule newScribeLambda_inv)
qed

subsection \<open>The checkpoint writer\<close>

lemma checkpointCore_fields:
  "pendingCheckpointMessages (checkpointCore cfg cp m cc skip s) = pendingCheckpointMessages s"
  "protocolHead (checkpointCore cfg cp m cc skip s) = protocolHead s"
  "lastCheckpointInsertedNumber (checkpointCore cfg cp m cc skip s)
     = lastCheckpointInsertedNumber s"
  by (simp_all add: checkpointCore_def emit_def Let_def)

lemma checkpointThen_fields:
  "pendingCheckpointMessages (checkpointThen cfg w failed s) = pendingCheckpointMessages s"
  "protocolHead (checkpointThen cfg w failed s) = protocolHead s"
  "lastCheckpointInsertedNumber (checkpointThen cfg w failed s)
     = lastCheckpointInsertedNumber s"
  by (simp_all add: checkpointThen_def emit_def Let_def checkpointCore_fields
      split: option.splits)

lemma reachable_afterFirst: "reachable exampleConfig afterFirst"
proof -
  have "reachableFrom exampleConfig (exampleLambda (- 1) 0) afterFirst"
    unfolding afterFirst_def
    by (rule reachableFrom.handlerStep [OF reachableFrom.start]) (rule prod.collapse [symmetric])
  then show ?thesis
    unfolding reachable_def exampleLambda_def by blast
qed

lemma reachable_step:
  "reachable cfg s \<Longrightarrow> reachable cfg (snd (handler cfg env msg s))"
  "reachable cfg s \<Longrightarrow> reachable cfg (settle cfg ok s)"
  "reachable cfg s \<Longrightarrow> reachable cfg (close s)"
  unfolding reachable_def
  by (metis reachableFrom.handlerStep prod.collapse,
      metis reachableFrom.settleStep, metis reachableFrom.closeStep)

text \<open>
  Claim C10.  In every state an instance can reach: when the checkpoint write in flight
  was handed a non-empty list of inserts and resolves, \<open>lastCheckpointInsertedNumber\<close>
  becomes the sequence number of the last insert and every entry left in the pending
  checkpoint messages has a sequence number strictly above
  \<open>max protocolHead (lastCheckpointInsertedNumber - maxPendingCheckpointMessagesLength)\<close>;
  every list of inserts that \<open>checkpointCore\<close> hands to the checkpoint manager holds only
  ops above \<open>lastCheckpointInsertedNumber\<close>, and so do the inserts of the write in flight,
  while every op that a resolved write has inserted is at or below it: no op that was
  inserted is handed over again.
\<close>

theorem checkpoint_inserts_capped:
  assumes "reachable cfg s"
  shows "(\<forall>w rest inserts.
            inflight s = w # rest \<and> w_kind w = CheckpointWrite inserts \<and> inserts \<noteq> [] \<longrightarrow>
            lastCheckpointInsertedNumber (settle cfg True s) = op_sequenceNumber (last inserts)
            \<and> (\<forall>m \<in> set (pendingCheckpointMessages (settle cfg True s)).
                  max (protocolHead (settle cfg True s))
                      (lastCheckpointInsertedNumber (settle cfg True s)
                         - maxPendingCheckpointMessagesLength cfg)
                    < op_sequenceNumber m))
     \<and> (\<forall>cp m cc skip cp' h inserts a b c.
            ManagerWrite cp' h inserts a b c
              \<in> set (effects (checkpointCore cfg cp m cc skip s)) - set (effects s) \<longrightarrow>
            (\<forall>x \<in> set inserts. lastCheckpointInsertedNumber s < op_sequenceNumber x))
     \<and> (\<forall>w \<in> set (inflight s). \<forall>x \<in> set (writeInserts w).
            lastCheckpointInsertedNumber s < op_sequenceNumber x)
     \<and> (\<forall>x \<in> set (insertedSoFar (effects s)).
            op_sequenceNumber x \<le> lastCheckpointInsertedNumber s)"
proof -
  have inv: "checkpointInv s" by (rule reachable_inv [OF assms])
  have c3: "\<forall>w \<in> set (inflight s). \<forall>x \<in> set (writeInserts w).
            lastCheckpointInsertedNumber s < op_sequenceNumber x"
    using inv by (simp add: checkpointInv_def)
  have c4: "\<forall>x \<in> set (insertedSoFar (effects s)).
            op_sequenceNumber x \<le> lastCheckpointInsertedNumber s"
    using inv by (simp add: checkpointInv_def)
  have c2: "\<forall>cp m cc skip cp' h inserts a b c.
            ManagerWrite cp' h inserts a b c
              \<in> set (effects (checkpointCore cfg cp m cc skip s)) - set (effects s) \<longrightarrow>
            (\<forall>x \<in> set inserts. lastCheckpointInsertedNumber s < op_sequenceNumber x)"
    by (auto simp: checkpointCore_def emit_def Let_def split: if_splits)
  have c1: "\<forall>w rest inserts.
            inflight s = w # rest \<and> w_kind w = CheckpointWrite inserts \<and> inserts \<noteq> [] \<longrightarrow>
            lastCheckpointInsertedNumber (settle cfg True s) = op_sequenceNumber (last inserts)
            \<and> (\<forall>m \<in> set (pendingCheckpointMessages (settle cfg True s)).
                  max (protocolHead (settle cfg True s))
                      (lastCheckpointInsertedNumber (settle cfg True s)
                         - maxPendingCheckpointMessagesLength cfg)
                    < op_sequenceNumber m)"
  proof (intro allI impI)
    fix w rest inserts
    assume a: "inflight s = w # rest \<and> w_kind w = CheckpointWrite inserts \<and> inserts \<noteq> []"
    let ?c = "max (protocolHead s)
                (op_sequenceNumber (last inserts) - maxPendingCheckpointMessagesLength cfg)"
    let ?d = "writeCheckpointDone cfg inserts
                (emit (Settled (CheckpointWrite inserts) True) (s\<lparr>inflight := rest\<rparr>))"
    have st: "settle cfg True s = checkpointThen cfg w False ?d"
      using a by (simp add: settle_def Let_def)
    have d: "lastCheckpointInsertedNumber ?d = op_sequenceNumber (last inserts)"
      "protocolHead ?d = protocolHead s"
      "pendingCheckpointMessages ?d
         = dropWhile (\<lambda>m. op_sequenceNumber m \<le> ?c) (pendingCheckpointMessages s)"
      using a by (simp_all add: writeCheckpointDone_def emit_def Let_def)
    have srt: "sorted_wrt (<) (map op_sequenceNumber (pendingCheckpointMessages s))"
      using inv by (simp add: checkpointInv_def)
    show "lastCheckpointInsertedNumber (settle cfg True s) = op_sequenceNumber (last inserts)
            \<and> (\<forall>m \<in> set (pendingCheckpointMessages (settle cfg True s)).
                  max (protocolHead (settle cfg True s))
                      (lastCheckpointInsertedNumber (settle cfg True s)
                         - maxPendingCheckpointMessagesLength cfg)
                    < op_sequenceNumber m)"
      unfolding st checkpointThen_fields d
      using dropWhile_above [OF srt] by blast
  qed
  show ?thesis
    by (rule conjI [OF c1 conjI [OF c2 conjI [OF c3 c4]]])
qed

lemma afterFirst_inflight:
  "inflight afterFirst =
     [\<lparr>w_kind = CheckpointWrite [mkOp 1 0 0 Operation], w_queuedMessage = firstBatch,
       w_clearCache = False, w_skipKafkaCheckpoint = False\<rparr>]"
  by code_simp

theorem checkpoint_inserts_capped_witness:
  "reachable exampleConfig afterFirst
   \<and> lastCheckpointInsertedNumber (settle exampleConfig True afterFirst) = 1
   \<and> map op_sequenceNumber (pendingCheckpointMessages (settle exampleConfig True afterFirst)) = [1]
   \<and> max (protocolHead (settle exampleConfig True afterFirst))
        (lastCheckpointInsertedNumber (settle exampleConfig True afterFirst)
           - maxPendingCheckpointMessagesLength exampleConfig) = 0
   \<and> insertedSoFar (effects (settle exampleConfig True afterFirst)) = [mkOp 1 0 0 Operation]"
proof -
  have a: "lastCheckpointInsertedNumber (settle exampleConfig True afterFirst)
      = op_sequenceNumber (last [mkOp 1 0 0 Operation])"
    using checkpoint_inserts_capped [OF reachable_afterFirst, THEN conjunct1]
    by (simp add: afterFirst_inflight)
  have b: "map op_sequenceNumber (pendingCheckpointMessages (settle exampleConfig True afterFirst))
      = [1]"
    "protocolHead (settle exampleConfig True afterFirst) = 0"
    "maxPendingCheckpointMessagesLength exampleConfig = 5"
    "insertedSoFar (effects (settle exampleConfig True afterFirst)) = [mkOp 1 0 0 Operation]"
    by code_simp+
  show ?thesis
    using a b reachable_afterFirst by (simp add: mkOp_def)
qed

lemma inflightKinds_frame [simp]:
  "inflightKinds (s\<lparr>documentCheckpointManager := d\<rparr>) = inflightKinds s"
  "inflightKinds (s\<lparr>lastOffset := lo\<rparr>) = inflightKinds s"
  "inflightKinds (s\<lparr>isDocumentCorrupt := ic\<rparr>) = inflightKinds s"
  "inflightKinds (s\<lparr>pendingMessages := pm\<rparr>) = inflightKinds s"
  "inflightKinds (s\<lparr>pendingCheckpointMessages := pcm\<rparr>) = inflightKinds s"
  "inflightKinds (s\<lparr>protocolHandler := ph\<rparr>) = inflightKinds s"
  "inflightKinds (s\<lparr>protocolHead := hd0\<rparr>) = inflightKinds s"
  "inflightKinds (s\<lparr>clearCache := cc\<rparr>) = inflightKinds s"
  "inflightKinds (s\<lparr>closed := cl\<rparr>) = inflightKinds s"
  "inflightKinds (s\<lparr>globalCheckpointOnly := g\<rparr>) = inflightKinds s"
  "inflightKinds (s\<lparr>lastClientSummaryHead := lh\<rparr>) = inflightKinds s"
  "inflightKinds (s\<lparr>lastSummarySequenceNumber := ls\<rparr>) = inflightKinds s"
  "inflightKinds (s\<lparr>validParentSummaries := vp\<rparr>) = inflightKinds s"
  "inflightKinds (s\<lparr>pendingCheckpointScribe := ps\<rparr>) = inflightKinds s"
  "inflightKinds (s\<lparr>pendingCheckpointOffset := po\<rparr>) = inflightKinds s"
  "inflightKinds (s\<lparr>pendingP := pp\<rparr>) = inflightKinds s"
  "inflightKinds (s\<lparr>effects := es\<rparr>) = inflightKinds s"
  "inflightKinds (s\<lparr>sequenceNumber := sq\<rparr>) = inflightKinds s"
  "inflightKinds (s\<lparr>minSequenceNumber := msq\<rparr>) = inflightKinds s"
  "inflightKinds (s\<lparr>lastCheckpointInsertedNumber := li\<rparr>) = inflightKinds s"
  "inflightKinds (emit e s) = inflightKinds s"
  by (simp_all add: inflightKinds_def emit_def)

lemma checkpointCore_kinds:
  "inflightKinds s \<Longrightarrow> inflightKinds (checkpointCore cfg cp m cc skip s)"
  by (simp add: checkpointCore_def Let_def inflightKinds_def emit_def)

lemma prepareCheckpoint_kinds:
  "inflightKinds s \<Longrightarrow> inflightKinds (prepareCheckpoint cfg env m r skip s)"
  by (simp add: prepareCheckpoint_def Let_def checkpointCore_kinds)

lemma idleTimeCheckpoint_kinds:
  "inflightKinds s \<Longrightarrow> inflightKinds (idleTimeCheckpoint cfg env m s)"
  by (simp add: idleTimeCheckpoint_def Let_def checkpointCore_kinds split: option.splits)

lemma checkpointThen_kinds:
  "inflightKinds s \<Longrightarrow> inflightKinds (checkpointThen cfg w failed s)"
  by (simp add: checkpointThen_def Let_def checkpointCore_kinds split: option.splits)

lemma writeCheckpointDone_kinds:
  "inflightKinds (writeCheckpointDone cfg inserts s) = inflightKinds s"
  by (simp add: writeCheckpointDone_def Let_def)

lemma settle_kinds:
  assumes "inflightKinds s"
  shows "inflightKinds (settle cfg ok s)"
proof (cases "inflight s")
  case Nil
  with assms show ?thesis by (simp add: settle_def)
next
  case (Cons w ws)
  with assms have r: "inflightKinds (s\<lparr>inflight := ws\<rparr>)"
    by (simp add: inflightKinds_def)
  from Cons r show ?thesis
    by (cases "w_kind w")
       (simp_all add: settle_def Let_def checkpointThen_kinds writeCheckpointDone_kinds)
qed

lemma createCheckpoint_kinds:
  "inflightKinds s \<Longrightarrow> inflightKinds (createCheckpoint cfg env m s)"
  by (simp add: createCheckpoint_def Let_def prepareCheckpoint_kinds split: option.splits)

lemma processFromPending_kinds:
  "processFromPending cfg env target m s = (out, s') \<Longrightarrow> inflightKinds s
     \<Longrightarrow> inflightKinds s'"
  by (auto simp: processFromPending_def markDocumentAsCorrupt_def Let_def
      prepareCheckpoint_kinds split: prod.splits if_splits)

lemma clientSummary_kinds:
  "clientSummary cfg env operation ps po s = (out, s') \<Longrightarrow> inflightKinds s
     \<Longrightarrow> inflightKinds s'"
  by (auto simp: clientSummary_def clientSummaryTry_def sendToDeli_def Let_def
      sendSummaryAck_def sendSummaryNack_def
      sendSummaryConfirmationMessage_def updateProtocolHead_def
      updateLastSummarySequenceNumber_def revertProtocolState_def
      split: option.splits if_splits prod.splits Outcome.splits)

lemma handleSummarize_kinds:
  "handleSummarize cfg env m operation s = (out, s') \<Longrightarrow> inflightKinds s
     \<Longrightarrow> inflightKinds s'"
  by (auto simp: handleSummarize_def Let_def
      split: prod.splits Outcome.splits if_splits
      dest: processFromPending_kinds clientSummary_kinds)

lemma handleNoClient_kinds:
  "handleNoClient cfg env operation s = (out, s') \<Longrightarrow> inflightKinds s
     \<Longrightarrow> inflightKinds s'"
  by (auto simp: handleNoClient_def sendToDeli_def Let_def sendSummaryConfirmationMessage_def
      updateLastSummarySequenceNumber_def updateValidParentSummaries_def
      split: option.splits if_splits prod.splits Outcome.splits)

lemma handleSummaryAck_kinds:
  "handleSummaryAck env operation s = (out, s') \<Longrightarrow> inflightKinds s \<Longrightarrow> inflightKinds s'"
  by (auto simp: handleSummaryAck_def Let_def updateProtocolHead_def
      updateLastSummarySequenceNumber_def split: option.splits if_splits)

lemma dispatchOp_kinds:
  "dispatchOp cfg env m operation s = (out, s') \<Longrightarrow> inflightKinds s
     \<Longrightarrow> inflightKinds s'"
  by (auto simp: dispatchOp_def split: if_splits
      dest: handleSummarize_kinds handleNoClient_kinds handleSummaryAck_kinds)

lemma fillGap_kinds:
  "fillGap env operation s = (out, s') \<Longrightarrow> inflightKinds s \<Longrightarrow> inflightKinds s'"
  by (auto simp: fillGap_def Let_def split: option.splits if_splits)

lemma acceptOp_kinds:
  "acceptOp cfg env m operation s = (out, s') \<Longrightarrow> inflightKinds s \<Longrightarrow> inflightKinds s'"
  by (auto simp: acceptOp_def pushOp_def Let_def
      split: prod.splits Outcome.splits if_splits dest: processFromPending_kinds)

lemma handleOp_kinds:
  "handleOp cfg env m operation s = (out, s') \<Longrightarrow> inflightKinds s
     \<Longrightarrow> inflightKinds s'"
  by (auto simp: handleOp_def split: prod.splits Outcome.splits if_splits
      dest: fillGap_kinds acceptOp_kinds dispatchOp_kinds)

lemma handleBoxcar_kinds:
  "handleBoxcar cfg env m bs s = (out, s') \<Longrightarrow> inflightKinds s
     \<Longrightarrow> inflightKinds s'"
proof (induction cfg env m bs s rule: handleBoxcar.induct)
  case (1 cfg env msg s)
  then show ?case by simp
next
  case (2 cfg env msg rest s)
  then show ?case by simp
next
  case (3 cfg env msg operation rest s)
  obtain o1 s1 where h: "handleOp cfg env msg operation s = (o1, s1)"
    by (cases "handleOp cfg env msg operation s")
  have i1: "inflightKinds s1" by (rule handleOp_kinds [OF h "3.prems"(2)])
  show ?case
  proof (cases o1)
    case Returned
    with 3 h i1 show ?thesis by simp
  next
    case (Threw e)
    with "3.prems" h i1 show ?thesis by simp
  qed
qed

lemma handler_kinds:
  "handler cfg env m s = (out, s') \<Longrightarrow> inflightKinds s
     \<Longrightarrow> inflightKinds s'"
  by (auto simp: handler_def Let_def createCheckpoint_kinds
      split: if_splits prod.splits Outcome.splits dest: handleBoxcar_kinds)

lemma reachableFrom_kinds:
  "reachableFrom cfg s0 s \<Longrightarrow> inflightKinds s0 \<Longrightarrow> inflightKinds s"
proof (induction rule: reachableFrom.induct)
  case start
  then show ?case by simp
next
  case (handlerStep s env msg out s')
  show ?case
    by (rule handler_kinds [OF handlerStep.hyps(2) handlerStep.IH [OF handlerStep.prems]])
next
  case (settleStep s ok)
  from settleStep.IH [OF settleStep.prems] show ?case by (simp add: settle_kinds)
next
  case (idleStep s env m)
  from idleStep.IH [OF idleStep.prems] show ?case by (simp add: idleTimeCheckpoint_kinds)
next
  case (prepareStep s env msg r skip)
  from prepareStep.IH [OF prepareStep.prems] show ?case by (simp add: prepareCheckpoint_kinds)
next
  case (closeStep s)
  from closeStep.IH [OF closeStep.prems] show ?case by (simp add: close_def)
qed

lemma reachable_kinds:
  assumes "reachable cfg s"
  shows "inflightKinds s"
proof -
  from assms obtain scribe h0 head0 messages t0
    where r: "reachableFrom cfg (newScribeLambda cfg scribe h0 head0 messages t0) s"
    unfolding reachable_def by blast
  have "inflightKinds (newScribeLambda cfg scribe h0 head0 messages t0)"
    by (simp add: inflightKinds_def newScribeLambda_def setStateFromCheckpoint_def)
  with r show ?thesis by (rule reachableFrom_kinds)
qed

text \<open>
  Claim C7, as amended.  In every state an instance can reach at most one database
  operation is in flight.  While one is pending (\<open>pendingP\<close> is set, as it is whenever an
  operation is in flight) and the lambda is not closed, a request only overwrites the
  queued checkpoint and message: no effect, nothing new in flight.  When the checkpoint
  write in flight settles, by resolving or by rejecting, on a lambda that is not closed,
  the queued pair is taken out of the queue and the queued checkpoint is handed to the
  checkpoint manager as the next write, for the queued message.  When it settles on a
  closed lambda, the queued pair is taken out of the queue and nothing is written for it:
  the only effects are the settlement and, for a resolved write that was not to skip it,
  the acknowledgement of the settled write's own message.
\<close>

theorem single_checkpoint_write:
  assumes "reachable cfg s"
  shows "length (inflight s) \<le> 1
     \<and> ((pendingP s \<or> inflight s \<noteq> []) \<and> \<not> closed s \<longrightarrow>
          checkpointCore cfg cp m cc skip s =
            s\<lparr>pendingCheckpointScribe := Some cp, pendingCheckpointOffset := Some m\<rparr>)
     \<and> (\<forall>w inserts cp' m'.
           inflight s = [w] \<and> w_kind w = CheckpointWrite inserts \<and> \<not> closed s
           \<and> pendingCheckpointScribe s = Some cp' \<and> pendingCheckpointOffset s = Some m' \<longrightarrow>
           pendingCheckpointScribe (settle cfg ok s) = None
           \<and> pendingCheckpointOffset (settle cfg ok s) = None
           \<and> pendingP (settle cfg ok s)
           \<and> inflight (settle cfg ok s) =
               [\<lparr>w_kind = CheckpointWrite
                           (filter (\<lambda>x. lastCheckpointInsertedNumber (settle cfg ok s)
                                          < op_sequenceNumber x)
                              (pendingCheckpointMessages (settle cfg ok s))),
                 w_queuedMessage = m', w_clearCache = False,
                 w_skipKafkaCheckpoint = False\<rparr>]
           \<and> last (effects (settle cfg ok s)) =
               ManagerWrite cp' (protocolHead (settle cfg ok s))
                 (filter (\<lambda>x. lastCheckpointInsertedNumber (settle cfg ok s)
                                < op_sequenceNumber x)
                    (pendingCheckpointMessages (settle cfg ok s)))
                 (noActiveClients (documentCheckpointManager (settle cfg ok s)))
                 (globalCheckpointOnly (settle cfg ok s))
                 (isDocumentCorrupt (settle cfg ok s)))
     \<and> (\<forall>w inserts cp' m'.
           inflight s = [w] \<and> w_kind w = CheckpointWrite inserts \<and> closed s
           \<and> pendingCheckpointScribe s = Some cp' \<and> pendingCheckpointOffset s = Some m' \<longrightarrow>
           pendingCheckpointScribe (settle cfg ok s) = None
           \<and> pendingCheckpointOffset (settle cfg ok s) = None
           \<and> inflight (settle cfg ok s) = []
           \<and> effects (settle cfg ok s) =
               effects s @ Settled (CheckpointWrite inserts) ok
                 # (if \<not> w_skipKafkaCheckpoint w \<and> ok
                    then [KafkaCheckpoint (w_queuedMessage w) (restartOnCheckpointFailure cfg)]
                    else []))"
proof -
  have inv: "checkpointInv s" by (rule reachable_inv [OF assms])
  have kinds: "inflightKinds s" by (rule reachable_kinds [OF assms])
  have c1: "length (inflight s) \<le> 1" using inv by (simp add: checkpointInv_def)
  have p: "inflight s \<noteq> [] \<longrightarrow> pendingP s" using inv by (simp add: checkpointInv_def)
  have c2: "(pendingP s \<or> inflight s \<noteq> []) \<and> \<not> closed s \<longrightarrow>
          checkpointCore cfg cp m cc skip s =
            s\<lparr>pendingCheckpointScribe := Some cp, pendingCheckpointOffset := Some m\<rparr>"
    using p by (auto simp: checkpointCore_def)
  have c3: "\<forall>w inserts cp' m'.
           inflight s = [w] \<and> w_kind w = CheckpointWrite inserts \<and> \<not> closed s
           \<and> pendingCheckpointScribe s = Some cp' \<and> pendingCheckpointOffset s = Some m' \<longrightarrow>
           pendingCheckpointScribe (settle cfg ok s) = None
           \<and> pendingCheckpointOffset (settle cfg ok s) = None
           \<and> pendingP (settle cfg ok s)
           \<and> inflight (settle cfg ok s) =
               [\<lparr>w_kind = CheckpointWrite
                           (filter (\<lambda>x. lastCheckpointInsertedNumber (settle cfg ok s)
                                          < op_sequenceNumber x)
                              (pendingCheckpointMessages (settle cfg ok s))),
                 w_queuedMessage = m', w_clearCache = False,
                 w_skipKafkaCheckpoint = False\<rparr>]
           \<and> last (effects (settle cfg ok s)) =
               ManagerWrite cp' (protocolHead (settle cfg ok s))
                 (filter (\<lambda>x. lastCheckpointInsertedNumber (settle cfg ok s)
                                < op_sequenceNumber x)
                    (pendingCheckpointMessages (settle cfg ok s)))
                 (noActiveClients (documentCheckpointManager (settle cfg ok s)))
                 (globalCheckpointOnly (settle cfg ok s))
                 (isDocumentCorrupt (settle cfg ok s))"
  proof (intro allI impI)
    fix w inserts cp' m'
    assume a: "inflight s = [w] \<and> w_kind w = CheckpointWrite inserts \<and> \<not> closed s
           \<and> pendingCheckpointScribe s = Some cp' \<and> pendingCheckpointOffset s = Some m'"
    with kinds have k: "\<not> w_clearCache w" by (simp add: inflightKinds_def)
    show "pendingCheckpointScribe (settle cfg ok s) = None
           \<and> pendingCheckpointOffset (settle cfg ok s) = None
           \<and> pendingP (settle cfg ok s)
           \<and> inflight (settle cfg ok s) =
               [\<lparr>w_kind = CheckpointWrite
                           (filter (\<lambda>x. lastCheckpointInsertedNumber (settle cfg ok s)
                                          < op_sequenceNumber x)
                              (pendingCheckpointMessages (settle cfg ok s))),
                 w_queuedMessage = m', w_clearCache = False,
                 w_skipKafkaCheckpoint = False\<rparr>]
           \<and> last (effects (settle cfg ok s)) =
               ManagerWrite cp' (protocolHead (settle cfg ok s))
                 (filter (\<lambda>x. lastCheckpointInsertedNumber (settle cfg ok s)
                                < op_sequenceNumber x)
                    (pendingCheckpointMessages (settle cfg ok s)))
                 (noActiveClients (documentCheckpointManager (settle cfg ok s)))
                 (globalCheckpointOnly (settle cfg ok s))
                 (isDocumentCorrupt (settle cfg ok s))"
      using a k
      by (cases ok)
         (simp_all add: settle_def checkpointThen_def checkpointCore_def
            writeCheckpointDone_def emit_def Let_def)
  qed
  have c4: "\<forall>w inserts cp' m'.
           inflight s = [w] \<and> w_kind w = CheckpointWrite inserts \<and> closed s
           \<and> pendingCheckpointScribe s = Some cp' \<and> pendingCheckpointOffset s = Some m' \<longrightarrow>
           pendingCheckpointScribe (settle cfg ok s) = None
           \<and> pendingCheckpointOffset (settle cfg ok s) = None
           \<and> inflight (settle cfg ok s) = []
           \<and> effects (settle cfg ok s) =
               effects s @ Settled (CheckpointWrite inserts) ok
                 # (if \<not> w_skipKafkaCheckpoint w \<and> ok
                    then [KafkaCheckpoint (w_queuedMessage w) (restartOnCheckpointFailure cfg)]
                    else [])"
  proof (intro allI impI)
    fix w inserts cp' m'
    assume a: "inflight s = [w] \<and> w_kind w = CheckpointWrite inserts \<and> closed s
           \<and> pendingCheckpointScribe s = Some cp' \<and> pendingCheckpointOffset s = Some m'"
    show "pendingCheckpointScribe (settle cfg ok s) = None
           \<and> pendingCheckpointOffset (settle cfg ok s) = None
           \<and> inflight (settle cfg ok s) = []
           \<and> effects (settle cfg ok s) =
               effects s @ Settled (CheckpointWrite inserts) ok
                 # (if \<not> w_skipKafkaCheckpoint w \<and> ok
                    then [KafkaCheckpoint (w_queuedMessage w) (restartOnCheckpointFailure cfg)]
                    else [])"
      using a
      by (cases ok)
         (simp_all add: settle_def checkpointThen_def checkpointCore_def
            writeCheckpointDone_def emit_def Let_def)
  qed
  show ?thesis
    by (rule conjI [OF c1 conjI [OF c2 conjI [OF c3 c4]]])
qed

lemma reachable_afterSecond: "reachable exampleConfig afterSecond"
  unfolding afterSecond_def by (rule reachable_step(1) [OF reachable_afterFirst])

theorem single_checkpoint_write_witness:
  "reachable exampleConfig afterSecond
   \<and> length (inflight afterSecond) \<le> 1
   \<and> map w_queuedMessage (inflight afterSecond) = [firstBatch]
   \<and> pendingP afterSecond \<and> \<not> closed afterSecond
   \<and> inflight (checkpointCore exampleConfig (exampleScribe 12 3 None False)
                 (mkBatch 12 []) False False afterSecond) = inflight afterSecond
   \<and> pendingCheckpointOffset (checkpointCore exampleConfig (exampleScribe 12 3 None False)
                 (mkBatch 12 []) False False afterSecond) = Some (mkBatch 12 [])
   \<and> pendingCheckpointOffset afterSecond = Some secondBatch
   \<and> pendingCheckpointOffset (settle exampleConfig True afterSecond) = None
   \<and> pendingP (settle exampleConfig True afterSecond)
   \<and> inflight (settle exampleConfig True afterSecond) =
       [\<lparr>w_kind = CheckpointWrite [mkOp 2 0 1 Operation], w_queuedMessage = secondBatch,
         w_clearCache = False, w_skipKafkaCheckpoint = False\<rparr>]
   \<and> reachable exampleConfig afterSecondClosed
   \<and> closed afterSecondClosed
   \<and> pendingCheckpointOffset afterSecondClosed = Some secondBatch
   \<and> pendingCheckpointOffset (settle exampleConfig False afterSecondClosed) = None
   \<and> inflight (settle exampleConfig False afterSecondClosed) = []
   \<and> effects (settle exampleConfig False afterSecondClosed) =
       effects afterSecondClosed @ [Settled (CheckpointWrite [mkOp 1 0 0 Operation]) False]"
proof -
  let ?w = "\<lparr>w_kind = CheckpointWrite [mkOp 1 0 0 Operation], w_queuedMessage = firstBatch,
             w_clearCache = False, w_skipKafkaCheckpoint = False\<rparr>"
  let ?cp = "generateScribeCheckpoint (exampleEnv True) afterSecond (Some 11) False"
  have rc: "reachable exampleConfig afterSecondClosed"
    unfolding afterSecondClosed_def by (rule reachable_step(3) [OF reachable_afterSecond])
  note t = single_checkpoint_write [OF reachable_afterSecond, where ok = True
      and cp = "exampleScribe 12 3 None False" and m = "mkBatch 12 []"
      and cc = False and skip = False]
  note u = single_checkpoint_write [OF rc, where ok = False]
  have f: "inflight afterSecond = [?w]" "\<not> closed afterSecond" "pendingP afterSecond"
    "pendingCheckpointScribe afterSecond = Some ?cp"
    "pendingCheckpointOffset afterSecond = Some secondBatch"
    by code_simp+
  have g: "inflight afterSecondClosed = [?w]" "closed afterSecondClosed"
    "pendingCheckpointScribe afterSecondClosed = Some ?cp"
    "pendingCheckpointOffset afterSecondClosed = Some secondBatch"
    using f by (simp_all add: afterSecondClosed_def close_def)
  have k: "w_kind ?w = CheckpointWrite [mkOp 1 0 0 Operation]" by simp
  from t [THEN conjunct1] have a: "length (inflight afterSecond) \<le> 1" .
  from t [THEN conjunct2, THEN conjunct1] f(2,3)
  have q: "checkpointCore exampleConfig (exampleScribe 12 3 None False) (mkBatch 12 [])
             False False afterSecond
           = afterSecond\<lparr>pendingCheckpointScribe := Some (exampleScribe 12 3 None False),
                          pendingCheckpointOffset := Some (mkBatch 12 [])\<rparr>"
    by simp
  have x: "filter (\<lambda>x. lastCheckpointInsertedNumber (settle exampleConfig True afterSecond)
                         < op_sequenceNumber x)
             (pendingCheckpointMessages (settle exampleConfig True afterSecond))
           = [mkOp 2 0 1 Operation]"
    by code_simp
  from t [THEN conjunct2, THEN conjunct2, THEN conjunct1, rule_format,
      of ?w "[mkOp 1 0 0 Operation]" ?cp secondBatch] f k
  have b: "pendingCheckpointOffset (settle exampleConfig True afterSecond) = None
    \<and> pendingP (settle exampleConfig True afterSecond)
    \<and> inflight (settle exampleConfig True afterSecond) =
        [\<lparr>w_kind = CheckpointWrite [mkOp 2 0 1 Operation], w_queuedMessage = secondBatch,
          w_clearCache = False, w_skipKafkaCheckpoint = False\<rparr>]"
    unfolding x by simp
  from u [THEN conjunct2, THEN conjunct2, THEN conjunct2, rule_format,
      of ?w "[mkOp 1 0 0 Operation]" ?cp secondBatch] g k
  have c: "pendingCheckpointOffset (settle exampleConfig False afterSecondClosed) = None
    \<and> inflight (settle exampleConfig False afterSecondClosed) = []
    \<and> effects (settle exampleConfig False afterSecondClosed) =
        effects afterSecondClosed @ [Settled (CheckpointWrite [mkOp 1 0 0 Operation]) False]"
    by simp
  show ?thesis
    using a b c q f g rc reachable_afterSecond by simp
qed

text \<open>The claim as it was stated, that the queued pair is flushed whenever the write in
  flight settles, fails on a closed lambda: the pair is taken out of the queue and
  \<open>checkpointCore\<close> returns at once, so nothing is written for it.\<close>

theorem single_checkpoint_write_counterexample:
  "reachable exampleConfig afterSecondClosed
   \<and> map w_queuedMessage (inflight afterSecondClosed) = [firstBatch]
   \<and> pendingCheckpointOffset afterSecondClosed = Some secondBatch
   \<and> inflight (settle exampleConfig True afterSecondClosed) = []
   \<and> pendingCheckpointOffset (settle exampleConfig True afterSecondClosed) = None
   \<and> effects (settle exampleConfig True afterSecondClosed) =
       effects afterSecondClosed @
         [Settled (CheckpointWrite [mkOp 1 0 0 Operation]) True,
          KafkaCheckpoint firstBatch False]"
proof -
  have r: "reachable exampleConfig afterSecondClosed"
    unfolding afterSecondClosed_def by (rule reachable_step(3) [OF reachable_afterSecond])
  have "map w_queuedMessage (inflight afterSecondClosed) = [firstBatch]"
    "pendingCheckpointOffset afterSecondClosed = Some secondBatch"
    "inflight (settle exampleConfig True afterSecondClosed) = []"
    "pendingCheckpointOffset (settle exampleConfig True afterSecondClosed) = None"
    "effects (settle exampleConfig True afterSecondClosed) =
       effects afterSecondClosed @
         [Settled (CheckpointWrite [mkOp 1 0 0 Operation]) True,
          KafkaCheckpoint firstBatch False]"
    by code_simp+
  with r show ?thesis by simp
qed

text \<open>The statement above is about a checkpoint write in flight.  When the operation in
  flight is the delete of the cache, its completion callback hands the captured
  \<open>clearCache\<close> on to the flush (line 696): in this run the flush of the queued
  checkpoint is a second delete, no checkpoint is written for the queued message, and its
  offset is acknowledged when the second delete resolves.\<close>

lemma cache_clearing_delete_run:
  "map w_kind (inflight afterNoClientNext) = [DeleteWrite]
   \<and> pendingCheckpointOffset afterNoClientNext = Some (mkBatch 11 [mkOp 2 1 1 Operation])
   \<and> managerCalls (effects (settle clearCacheConfig True
                         (settle clearCacheConfig True afterNoClientNext)))
       = [ManagerDelete 0 True, ManagerDelete 0 True]
   \<and> acknowledged (effects (settle clearCacheConfig True
                         (settle clearCacheConfig True afterNoClientNext))) = [10, 11]
   \<and> inflight (settle clearCacheConfig True
                 (settle clearCacheConfig True afterNoClientNext)) = []"
  by code_simp

subsection \<open>The acknowledgement of offsets\<close>

lemma acknowledged_append [simp]:
  "acknowledged (es @ fs) = acknowledged es @ acknowledged fs"
  by (simp add: acknowledged_def)

lemma acknowledged_simps [simp]:
  "acknowledged [] = []"
  "acknowledged [KafkaCheckpoint m r] = [qm_offset m]"
  "acknowledged [Settled k ok] = []"
  "acknowledged [ManagerWrite cp h ins a b c] = []"
  "acknowledged [ManagerDelete h d] = []"
  by (simp_all add: acknowledged_def)

lemma acknowledged_Cons [simp]:
  "acknowledged (e # f # es) = acknowledged [e] @ acknowledged (f # es)"
  by (simp add: acknowledged_def)

lemma checkpointCore_acknowledged:
  "acknowledged (effects (checkpointCore cfg cp m cc skip s)) = acknowledged (effects s)"
  by (simp add: checkpointCore_def emit_def Let_def)

lemma settle_acknowledged:
  "inflight s = w # rest \<Longrightarrow>
   acknowledged (effects (settle cfg ok s)) =
     acknowledged (effects s) @
       (if ok \<and> \<not> w_skipKafkaCheckpoint w then [qm_offset (w_queuedMessage w)] else [])"
  by (cases "w_kind w")
     (simp_all add: settle_def checkpointThen_def checkpointCore_acknowledged emit_def Let_def
        writeCheckpointDone_def split: option.splits)

text \<open>
  Claim C1 does not hold on the code.  A database operation that settles acknowledges the
  offset of its message exactly when it resolved and was not started with
  \<open>skipKafkaCheckpoint\<close> (lemma \<open>settle_acknowledged\<close>), and starting or queueing a
  checkpoint acknowledges nothing.  But a request that is queued behind a write in flight
  loses its \<open>skipKafkaCheckpoint\<close>: the flush passes the default.  On the run below the
  protocol handler throws on the batch at offset 11 while the write of offset 10 is in
  flight; the MarkAsCorrupt checkpoint is queued, written after the first write settles,
  and offset 11 is acknowledged.  When the first write has settled before the batch
  arrives, the same checkpoint is started with \<open>skipKafkaCheckpoint\<close> and offset 11 is
  not acknowledged.
\<close>

theorem queued_corrupt_checkpoint_acknowledged:
  "fst (handler exampleConfig (exampleEnv True) corruptBatch afterFirst) = Threw ProtocolError
   \<and> isDocumentCorrupt afterCorrupt
   \<and> pendingP afterCorrupt
   \<and> pendingCheckpointOffset afterCorrupt = Some corruptBatch
   \<and> acknowledged (effects (settle exampleConfig True (settle exampleConfig True afterCorrupt)))
       = [10, 11]
   \<and> fst (handler exampleConfig (exampleEnv True) corruptBatch
            (settle exampleConfig True afterFirst)) = Threw ProtocolError
   \<and> map w_skipKafkaCheckpoint (inflight afterCorruptSettled) = [True]
   \<and> acknowledged (effects (settle exampleConfig True afterCorruptSettled)) = [10]"
  by code_simp

subsection \<open>The tracked service summaries\<close>

lemma sentToDeli_append [simp]:
  "sentToDeli (es @ fs) = sentToDeli es @ sentToDeli fs"
  by (simp add: sentToDeli_def)

lemma sentToDeli_simps [simp]:
  "sentToDeli [] = []"
  "sentToDeli [KafkaCheckpoint m r] = []"
  "sentToDeli [ManagerWrite cp h ins a b c] = []"
  "sentToDeli [ManagerDelete h d] = []"
  "sentToDeli [Settled k ok] = []"
  "sentToDeli [SendToDeli x] = [x]"
  "sentToDeli [ClientSummaryCall o1 l1 c1 p1 e1] = []"
  "sentToDeli [ServiceSummaryCall o2 h2 c2 p2] = []"
  "sentToDeli [ReadMessages f t] = []"
  "sentToDeli [IdleTimerArmed i j] = []"
  "sentToDeli [CheckpointLog rs] = []"
  by (simp_all add: sentToDeli_def)

lemma withinLimit_frame [simp]:
  "withinLimit cfg (s\<lparr>documentCheckpointManager := d\<rparr>) = withinLimit cfg s"
  "withinLimit cfg (s\<lparr>lastOffset := lo\<rparr>) = withinLimit cfg s"
  "withinLimit cfg (s\<lparr>isDocumentCorrupt := ic\<rparr>) = withinLimit cfg s"
  "withinLimit cfg (s\<lparr>pendingMessages := pm\<rparr>) = withinLimit cfg s"
  "withinLimit cfg (s\<lparr>pendingCheckpointMessages := pcm\<rparr>) = withinLimit cfg s"
  "withinLimit cfg (s\<lparr>protocolHandler := ph\<rparr>) = withinLimit cfg s"
  "withinLimit cfg (s\<lparr>protocolHead := hd0\<rparr>) = withinLimit cfg s"
  "withinLimit cfg (s\<lparr>clearCache := cc\<rparr>) = withinLimit cfg s"
  "withinLimit cfg (s\<lparr>closed := cl\<rparr>) = withinLimit cfg s"
  "withinLimit cfg (s\<lparr>globalCheckpointOnly := g\<rparr>) = withinLimit cfg s"
  "withinLimit cfg (s\<lparr>lastClientSummaryHead := lh\<rparr>) = withinLimit cfg s"
  "withinLimit cfg (s\<lparr>lastSummarySequenceNumber := ls\<rparr>) = withinLimit cfg s"
  "withinLimit cfg (s\<lparr>pendingCheckpointScribe := ps\<rparr>) = withinLimit cfg s"
  "withinLimit cfg (s\<lparr>pendingCheckpointOffset := po\<rparr>) = withinLimit cfg s"
  "withinLimit cfg (s\<lparr>pendingP := pp\<rparr>) = withinLimit cfg s"
  "withinLimit cfg (s\<lparr>inflight := fl\<rparr>) = withinLimit cfg s"
  "withinLimit cfg (s\<lparr>effects := es\<rparr>) = withinLimit cfg s"
  "withinLimit cfg (s\<lparr>sequenceNumber := sq\<rparr>) = withinLimit cfg s"
  "withinLimit cfg (s\<lparr>minSequenceNumber := msq\<rparr>) = withinLimit cfg s"
  "withinLimit cfg (s\<lparr>lastCheckpointInsertedNumber := li\<rparr>) = withinLimit cfg s"
  "withinLimit cfg (s\<lparr>validParentSummaries := None\<rparr>)"
  "withinLimit cfg (emit e s) = withinLimit cfg s"
  by (simp_all add: withinLimit_def emit_def)

























subsection \<open>The corrupt flag\<close>

lemma flagStep_same:
  "isDocumentCorrupt s' = isDocumentCorrupt s \<Longrightarrow> flagStep s out s'"
  by (simp add: flagStep_def)

lemma flagStep_refl [simp]: "flagStep s out s"
  by (simp add: flagStep_def)

lemma checkpointCore_flag:
  "isDocumentCorrupt (checkpointCore cfg cp m cc skip s) = isDocumentCorrupt s"
  "sentToDeli (effects (checkpointCore cfg cp m cc skip s)) = sentToDeli (effects s)"
  by (simp_all add: checkpointCore_def emit_def Let_def)

lemma prepareCheckpoint_flag:
  "isDocumentCorrupt (prepareCheckpoint cfg env m r skip s) = isDocumentCorrupt s"
  "sentToDeli (effects (prepareCheckpoint cfg env m r skip s)) = sentToDeli (effects s)"
  by (simp_all add: prepareCheckpoint_def emit_def Let_def checkpointCore_flag)

lemma createCheckpoint_flag:
  "isDocumentCorrupt (createCheckpoint cfg env m s) = isDocumentCorrupt s"
  by (simp add: createCheckpoint_def emit_def Let_def prepareCheckpoint_flag
      split: option.splits)

lemma processFromPending_flag:
  assumes "processFromPending cfg env target m s = (out, s')"
  shows "flagStep s out s'"
    and "sentToDeli (effects s') = sentToDeli (effects s)"
    and "out = Returned \<longrightarrow> isDocumentCorrupt s' = isDocumentCorrupt s"
  using assms
  by (auto simp: processFromPending_def markDocumentAsCorrupt_def Let_def flagStep_def
      prepareCheckpoint_flag split: prod.splits if_splits)

lemma clientSummary_flag:
  "clientSummary cfg env operation ps po s = (out, s')
     \<Longrightarrow> isDocumentCorrupt s' = isDocumentCorrupt s"
  by (auto simp: clientSummary_def clientSummaryTry_def sendToDeli_def Let_def sendSummaryAck_def sendSummaryNack_def
      sendSummaryConfirmationMessage_def updateProtocolHead_def emit_def
      updateLastSummarySequenceNumber_def revertProtocolState_def
      split: option.splits if_splits prod.splits Outcome.splits)

lemma handleSummarize_flag:
  assumes "handleSummarize cfg env m operation s = (out, s')"
  shows "flagStep s out s'"
proof (cases "\<not> isExternal env \<or> op_referenceSequenceNumber operation
             \<ge> handlerSequenceNumber env (protocolHandler s)")
  case False
  with assms show ?thesis by (auto simp: handleSummarize_def)
next
  case True
  obtain o1 s1 where p: "processFromPending cfg env (op_referenceSequenceNumber operation) m s
      = (o1, s1)" by (cases "processFromPending cfg env (op_referenceSequenceNumber operation) m s")
  note f = processFromPending_flag [OF p]
  show ?thesis
  proof (cases o1)
    case (Threw e)
    with assms True p f(1) show ?thesis by (auto simp: handleSummarize_def Let_def)
  next
    case Returned
    show ?thesis
    proof (cases "protocolHead s1 < handlerSequenceNumber env (protocolHandler s1)")
      case False
      with assms True p f(1) Returned show ?thesis by (auto simp: handleSummarize_def Let_def)
    next
      case lt: True
      from assms True p Returned lt
      have "clientSummary cfg env operation (getProtocolState env (protocolHandler s) False)
              (pendingMessages s) s1 = (out, s')"
        by (auto simp: handleSummarize_def Let_def)
      from clientSummary_flag [OF this] f(3) Returned show ?thesis
        by (simp add: flagStep_def)
    qed
  qed
qed

lemma handleNoClient_flag:
  "handleNoClient cfg env operation s = (out, s') \<Longrightarrow> flagStep s out s'"
  by (auto simp: handleNoClient_def sendToDeli_def Let_def sendSummaryConfirmationMessage_def emit_def
      updateLastSummarySequenceNumber_def updateValidParentSummaries_def flagStep_def
      split: option.splits if_splits prod.splits Outcome.splits)

lemma handleSummaryAck_flag:
  "handleSummaryAck env operation s = (out, s') \<Longrightarrow> flagStep s out s'"
  by (auto simp: handleSummaryAck_def Let_def updateProtocolHead_def flagStep_def
      updateLastSummarySequenceNumber_def split: option.splits if_splits)

lemma dispatchOp_flag:
  "dispatchOp cfg env m operation s = (out, s') \<Longrightarrow> flagStep s out s'"
  by (auto simp: dispatchOp_def flagStep_same split: if_splits
      dest: handleSummarize_flag handleNoClient_flag handleSummaryAck_flag)

lemma fillGap_flag:
  assumes "fillGap env operation s = (out, s')"
  shows "isDocumentCorrupt s' = isDocumentCorrupt s"
    and "sentToDeli (effects s') = sentToDeli (effects s)"
  using assms by (auto simp: fillGap_def Let_def emit_def split: option.splits if_splits)

lemma acceptOp_flag_all:
  assumes "acceptOp cfg env m operation s = (out, s')"
  shows "flagStep s out s'
    \<and> sentToDeli (effects s') = sentToDeli (effects s)
    \<and> (out = Returned \<longrightarrow> isDocumentCorrupt s' = isDocumentCorrupt s)"
proof -
  let ?p = "pushOp cfg operation s"
  have pf: "isDocumentCorrupt ?p = isDocumentCorrupt s" "effects ?p = effects s"
    by (simp_all add: pushOp_def Let_def)
  show ?thesis
  proof (cases "minSequenceNumber s \<noteq> op_minimumSequenceNumber operation")
    case False
    with assms pf show ?thesis
      by (auto simp: acceptOp_def Let_def flagStep_def)
  next
    case True
    obtain o1 s1 where p: "processFromPending cfg env (minSequenceNumber ?p) m ?p = (o1, s1)"
      by (cases "processFromPending cfg env (minSequenceNumber ?p) m ?p")
    note f = processFromPending_flag [OF p]
    from assms True p
    have r: "(out, s') = (case o1 of Returned \<Rightarrow> (Returned, s1\<lparr>clearCache := False\<rparr>)
        | Threw e \<Rightarrow> (Threw e, s1))"
      by (simp add: acceptOp_def Let_def split: Outcome.splits)
    show ?thesis
      using r f pf by (cases o1) (auto simp: flagStep_def)
  qed
qed

lemma acceptOp_flag:
  assumes "acceptOp cfg env m operation s = (out, s')"
  shows "flagStep s out s'"
    and "sentToDeli (effects s') = sentToDeli (effects s)"
    and "out = Returned \<longrightarrow> isDocumentCorrupt s' = isDocumentCorrupt s"
  using acceptOp_flag_all [OF assms] by simp_all

lemma handleOp_flag:
  assumes "handleOp cfg env m operation s = (out, s')"
  shows "flagStep s out s'"
proof (cases "op_sequenceNumber operation \<le> sequenceNumber s
    \<or> op_sequenceNumber operation \<le> lastProtocolHandlerSequenceNumber env s")
  case True
  with assms show ?thesis by (auto simp: handleOp_def split: if_splits)
next
  case False
  obtain o1 s1 where f: "fillGap env operation s = (o1, s1)" by (cases "fillGap env operation s")
  note ff = fillGap_flag [OF f]
  show ?thesis
  proof (cases o1)
    case (Threw e)
    with assms False f ff show ?thesis by (auto simp: handleOp_def flagStep_def)
  next
    case Returned
    obtain o2 s2 where a: "acceptOp cfg env m operation s1 = (o2, s2)"
      by (cases "acceptOp cfg env m operation s1")
    note af = acceptOp_flag [OF a]
    show ?thesis
    proof (cases o2)
      case (Threw e)
      with assms False f Returned a have "out = o2" "s' = s2" by (auto simp: handleOp_def)
      with af(1) ff show ?thesis by (simp add: flagStep_def)
    next
      case r2: Returned
      with assms False f Returned a have d: "dispatchOp cfg env m operation s2 = (out, s')"
        by (auto simp: handleOp_def)
      from dispatchOp_flag [OF d] af(2,3) r2 ff show ?thesis by (simp add: flagStep_def)
    qed
  qed
qed

lemma handleBoxcar_flag:
  "handleBoxcar cfg env m bs s = (out, s') \<Longrightarrow> flagOnly s out s'"
proof (induction cfg env m bs s rule: handleBoxcar.induct)
  case (1 cfg env msg s)
  then show ?case by (simp add: flagOnly_def)
next
  case (2 cfg env msg rest s)
  then show ?case by simp
next
  case (3 cfg env msg operation rest s)
  obtain o1 s1 where h: "handleOp cfg env msg operation s = (o1, s1)"
    by (cases "handleOp cfg env msg operation s")
  note hf = handleOp_flag [OF h]
  show ?case
  proof (cases o1)
    case Returned
    with "3.prems" h have "handleBoxcar cfg env msg rest s1 = (out, s')" by simp
    from "3.IH" [OF h [symmetric] _ this] Returned hf show ?thesis
      by (auto simp: flagOnly_def flagStep_def)
  next
    case (Threw e)
    with "3.prems" h hf show ?thesis by (auto simp: flagOnly_def flagStep_def)
  qed
qed

lemma handler_flag:
  assumes "handler cfg env m s = (out, s')"
  shows "flagOnly s out s'"
proof (cases "case lastOffset s of None \<Rightarrow> False | Some offset \<Rightarrow> qm_offset m \<le> offset")
  case True
  with assms show ?thesis
    by (auto simp: handler_def Let_def emit_def flagOnly_def split: if_splits)
next
  case False
  obtain o1 s1 where b: "handleBoxcar cfg env m (qm_boxcar m) (s\<lparr>lastOffset := Some (qm_offset m)\<rparr>)
      = (o1, s1)"
    by (cases "handleBoxcar cfg env m (qm_boxcar m) (s\<lparr>lastOffset := Some (qm_offset m)\<rparr>)")
  from handleBoxcar_flag [OF b] have f: "flagOnly s o1 s1" by (simp add: flagOnly_def)
  from assms False b have "(out, s') = (case o1 of Returned \<Rightarrow> (Returned, createCheckpoint cfg env m s1)
      | Threw e \<Rightarrow> (Threw e, s1))"
    by (simp add: handler_def split: Outcome.splits)
  with f show ?thesis
    by (cases o1) (auto simp: flagOnly_def createCheckpoint_flag)
qed


lemma settle_flag: "isDocumentCorrupt (settle cfg ok s) = isDocumentCorrupt s"
proof (cases "inflight s")
  case Nil
  then show ?thesis by (simp add: settle_def)
next
  case (Cons w ws)
  have t: "isDocumentCorrupt (checkpointThen cfg w failed t) = isDocumentCorrupt t"
    for failed and t :: "('a, 'b) ScribeLambda"
    by (simp add: checkpointThen_def Let_def emit_def checkpointCore_flag split: option.splits)
  from Cons show ?thesis
    by (cases "w_kind w")
       (simp_all add: settle_def Let_def t writeCheckpointDone_def emit_def)
qed

lemma reachableFrom_flag:
  "reachableFrom cfg init s \<Longrightarrow> isDocumentCorrupt init \<Longrightarrow> isDocumentCorrupt s"
proof (induction rule: reachableFrom.induct)
  case start
  then show ?case .
next
  case (handlerStep s env msg out s')
  from handler_flag [OF handlerStep.hyps(2)] handlerStep.IH [OF handlerStep.prems]
  show ?case by (simp add: flagOnly_def)
next
  case (settleStep s ok)
  from settleStep.IH [OF settleStep.prems] show ?case by (simp add: settle_flag)
next
  case (idleStep s env m)
  from idleStep.IH [OF idleStep.prems] show ?case
    by (simp add: idleTimeCheckpoint_def Let_def emit_def checkpointCore_flag
        split: option.splits)
next
  case (prepareStep s env msg r skip)
  from prepareStep.IH [OF prepareStep.prems] show ?case by (simp add: prepareCheckpoint_flag)
next
  case (closeStep s)
  from closeStep.IH [OF closeStep.prems] show ?case by (simp add: close_def)
qed

text \<open>
  Claim C4, as amended.  The handler does not read \<open>isDocumentCorrupt\<close> when it decides
  what to do with an op.  What holds: the lambda never clears the flag (not in the
  handler, and in no state reached from a lambda whose flag is set); a call of the handler
  that sets the flag throws, so the rest of the batch is not processed; and the round of
  the loop that sets the flag throws and has sent nothing to the producer: no SummaryAck,
  no SummaryNack and no UpdateDSN control op.
\<close>

theorem corrupt_flag_aborts:
  "(handler cfg env msg s = (out, s') \<longrightarrow>
      (isDocumentCorrupt s \<longrightarrow> isDocumentCorrupt s')
      \<and> (\<not> isDocumentCorrupt s \<and> isDocumentCorrupt s' \<longrightarrow> (\<exists>e. out = Threw e)))
   \<and> (handleOp cfg env msg operation s = (out1, s1)
        \<and> \<not> isDocumentCorrupt s \<and> isDocumentCorrupt s1 \<longrightarrow>
      (\<exists>e. out1 = Threw e) \<and> sentToDeli (effects s1) = sentToDeli (effects s))
   \<and> (reachableFrom cfg init s \<and> isDocumentCorrupt init \<longrightarrow> isDocumentCorrupt s)"
proof -
  have c1: "handler cfg env msg s = (out, s') \<longrightarrow>
      (isDocumentCorrupt s \<longrightarrow> isDocumentCorrupt s')
      \<and> (\<not> isDocumentCorrupt s \<and> isDocumentCorrupt s' \<longrightarrow> (\<exists>e. out = Threw e))"
  proof
    assume "handler cfg env msg s = (out, s')"
    from handler_flag [OF this] show "(isDocumentCorrupt s \<longrightarrow> isDocumentCorrupt s')
      \<and> (\<not> isDocumentCorrupt s \<and> isDocumentCorrupt s' \<longrightarrow> (\<exists>e. out = Threw e))"
      by (cases out) (auto simp: flagOnly_def)
  qed
  have c2: "handleOp cfg env msg operation s = (out1, s1)
        \<and> \<not> isDocumentCorrupt s \<and> isDocumentCorrupt s1 \<longrightarrow>
      (\<exists>e. out1 = Threw e) \<and> sentToDeli (effects s1) = sentToDeli (effects s)"
  proof
    assume a: "handleOp cfg env msg operation s = (out1, s1)
        \<and> \<not> isDocumentCorrupt s \<and> isDocumentCorrupt s1"
    then have "handleOp cfg env msg operation s = (out1, s1)" by simp
    from handleOp_flag [OF this] a
    show "(\<exists>e. out1 = Threw e) \<and> sentToDeli (effects s1) = sentToDeli (effects s)"
      by (cases out1) (auto simp: flagStep_def)
  qed
  have c3: "reachableFrom cfg init s \<and> isDocumentCorrupt init \<longrightarrow> isDocumentCorrupt s"
    using reachableFrom_flag by blast
  show ?thesis by (rule conjI [OF c1 conjI [OF c2 c3]])
qed

theorem corrupt_flag_aborts_witness:
  "\<not> isDocumentCorrupt afterFirst
   \<and> isDocumentCorrupt afterCorrupt
   \<and> fst (handler exampleConfig (exampleEnv True) corruptBatch afterFirst) = Threw ProtocolError
   \<and> fst (handleOp exampleConfig (exampleEnv True) corruptBatch (mkOp 2 2 1 Propose)
            (afterFirst\<lparr>lastOffset := Some 11\<rparr>)) = Threw ProtocolError
   \<and> sentToDeli (effects afterCorrupt) = sentToDeli (effects afterFirst)
   \<and> isDocumentCorrupt (settle exampleConfig True afterCorrupt)"
proof -
  let ?h = "handler exampleConfig (exampleEnv True) corruptBatch afterFirst"
  let ?o = "handleOp exampleConfig (exampleEnv True) corruptBatch (mkOp 2 2 1 Propose)
              (afterFirst\<lparr>lastOffset := Some 11\<rparr>)"
  have n: "\<not> isDocumentCorrupt afterFirst" "\<not> isDocumentCorrupt (afterFirst\<lparr>lastOffset := Some 11\<rparr>)"
    by code_simp+
  have y: "isDocumentCorrupt afterCorrupt" "isDocumentCorrupt (snd ?o)"
    "sentToDeli (effects (afterFirst\<lparr>lastOffset := Some 11\<rparr>)) = sentToDeli (effects afterFirst)"
    "sentToDeli (effects (snd ?o)) = sentToDeli (effects afterCorrupt)"
    by code_simp+
  have h: "?h = (fst ?h, afterCorrupt)" by (simp add: afterCorrupt_def)
  have o: "?o = (fst ?o, snd ?o)" by simp
  note t = corrupt_flag_aborts [of exampleConfig "exampleEnv True" corruptBatch _ _ _
      "mkOp 2 2 1 Propose"]
  from t [of afterFirst "fst ?h" afterCorrupt "fst ?o" "snd ?o" afterFirst] h n y
  obtain e where e: "fst ?h = Threw e" by auto
  from t [of "afterFirst\<lparr>lastOffset := Some 11\<rparr>" "fst ?h" afterCorrupt "fst ?o" "snd ?o"
      afterFirst] o n y
  obtain e' where e': "fst ?o = Threw e'"
    and q: "sentToDeli (effects (snd ?o)) = sentToDeli (effects (afterFirst\<lparr>lastOffset := Some 11\<rparr>))"
    by auto
  have r: "reachableFrom exampleConfig afterCorrupt (settle exampleConfig True afterCorrupt)"
    by (rule reachableFrom.settleStep [OF reachableFrom.start])
  from t [of "settle exampleConfig True afterCorrupt" "fst ?h" afterCorrupt "fst ?o" "snd ?o"
      afterCorrupt] r y
  have z: "isDocumentCorrupt (settle exampleConfig True afterCorrupt)" by blast
  have v: "fst ?h = Threw ProtocolError" "fst ?o = Threw ProtocolError" by code_simp+
  show ?thesis using n y v q z by simp
qed

text \<open>The claim as it was stated fails: a lambda constructed from a checkpoint whose
  \<open>isCorrupt\<close> is set processes a Summarize op as any other lambda does; the client
  summary is written, a SummaryAck and an UpdateDSN control op are sent and the protocol
  head advances.\<close>

theorem corrupt_flag_aborts_counterexample:
  "reachable exampleConfig corruptLambda
   \<and> isDocumentCorrupt corruptLambda
   \<and> fst (handler exampleConfig (exampleEnv True) (mkBatch 6 [summarizeOp]) corruptLambda)
       = Returned
   \<and> map dsm_type (sentToDeli (effects (snd (handler exampleConfig (exampleEnv True)
        (mkBatch 6 [summarizeOp]) corruptLambda)))) = [SummaryAck, Control]
   \<and> protocolHead (snd (handler exampleConfig (exampleEnv True)
        (mkBatch 6 [summarizeOp]) corruptLambda)) = 10"
proof -
  have "reachableFrom exampleConfig corruptLambda corruptLambda" by (rule reachableFrom.start)
  then have "reachable exampleConfig corruptLambda"
    unfolding reachable_def corruptLambda_def by blast
  moreover have "isDocumentCorrupt corruptLambda"
    "fst (handler exampleConfig (exampleEnv True) (mkBatch 6 [summarizeOp]) corruptLambda)
       = Returned"
    "map dsm_type (sentToDeli (effects (snd (handler exampleConfig (exampleEnv True)
        (mkBatch 6 [summarizeOp]) corruptLambda)))) = [SummaryAck, Control]"
    "protocolHead (snd (handler exampleConfig (exampleEnv True)
        (mkBatch 6 [summarizeOp]) corruptLambda)) = 10"
    by code_simp+
  ultimately show ?thesis by simp
qed

end
